(* ===== verification/Prelude.thy ===== *)
theory Prelude
  imports Main "HOL-Library.Sublist"
begin

text \<open>
  Shared vocabulary of the CheckMyFinals development: the JavaScript values that the
  timetable grid holds (\<open>cell\<close>, \<open>row\<close>, \<open>grid\<close>) and the ECMAScript string
  operations the sources call (\<open>String\<close>, \<open>||\<close>, \<open>trim\<close>, \<open>toUpperCase\<close>,
  \<open>startsWith\<close>, \<open>includes\<close>, \<open>join\<close>, \<open>replace\<close> with a character class).
  Strings are modelled as HOL strings whose characters are read as ASCII code units:
  whitespace is the ASCII part of the ECMAScript \<open>WhiteSpace\<close>/\<open>LineTerminator\<close>
  set (TAB, LF, VT, FF, CR, SPACE) and upper-casing maps \<open>a\<close>..\<open>z\<close> to
  \<open>A\<close>..\<open>Z\<close>. The lemmas proved here are the facts the component theories share.
\<close>

named_theorems js_string "normalisation rules for the modelled ECMAScript string operations"

section \<open>Characters\<close>

definition is_js_ws :: "char \<Rightarrow> bool" where
  "is_js_ws c \<longleftrightarrow> (of_char c :: nat) = 32 \<or> (9 \<le> (of_char c :: nat) \<and> (of_char c :: nat) \<le> 13)"

definition is_ascii_lower :: "char \<Rightarrow> bool" where
  "is_ascii_lower c \<longleftrightarrow> 97 \<le> (of_char c :: nat) \<and> (of_char c :: nat) \<le> 122"

definition is_ascii_upper :: "char \<Rightarrow> bool" where
  "is_ascii_upper c \<longleftrightarrow> 65 \<le> (of_char c :: nat) \<and> (of_char c :: nat) \<le> 90"

definition is_ascii_digit :: "char \<Rightarrow> bool" where
  "is_ascii_digit c \<longleftrightarrow> 48 \<le> (of_char c :: nat) \<and> (of_char c :: nat) \<le> 57"

text \<open>\<open>String.prototype.toUpperCase\<close> on one ASCII code unit.\<close>

definition js_upper_char :: "char \<Rightarrow> char" where
  "js_upper_char c = (if is_ascii_lower c then char_of ((of_char c :: nat) - 32) else c)"

section \<open>JavaScript values in the grid\<close>

text \<open>
  A cell of the decoded worksheet is a JavaScript value: a string (the CSV decoder and
  \<open>sheet_to_json\<close> for text cells), a number (\<open>sheet_to_json\<close> for numeric and date
  cells), carried here with its \<open>String(...)\<close> rendering, or a boolean
  (\<open>sheet_to_json\<close> for \<open>TRUE\<close>/\<open>FALSE\<close> cells).
\<close>

datatype cell = Str string | Num string | Bool bool

type_synonym row = "cell list"
type_synonym grid = "row list"

primrec js_String :: "cell \<Rightarrow> string" where
  "js_String (Str s) = s"
| "js_String (Num r) = r"
| "js_String (Bool b) = (if b then ''true'' else ''false'')"

text \<open>ToBoolean: the empty string, \<open>0\<close>, \<open>-0\<close>, \<open>NaN\<close> and \<open>false\<close> are falsy.\<close>

primrec js_falsy :: "cell \<Rightarrow> bool" where
  "js_falsy (Str s) \<longleftrightarrow> s = []"
| "js_falsy (Num r) \<longleftrightarrow> r = ''0'' \<or> r = ''NaN''"
| "js_falsy (Bool b) \<longleftrightarrow> \<not> b"

text \<open>\<open>row[i] || ''\<close>: an index past the end reads \<open>undefined\<close>, which is falsy.\<close>

definition cell_or_empty :: "row \<Rightarrow> nat \<Rightarrow> cell" where
  "cell_or_empty r i = (if i < length r \<and> \<not> js_falsy (r ! i) then r ! i else Str [])"

section \<open>String operations\<close>

abbreviation js_upper :: "string \<Rightarrow> string" where
  "js_upper s \<equiv> map js_upper_char s"

definition js_trim :: "string \<Rightarrow> string" where
  "js_trim s = rev (dropWhile is_js_ws (rev (dropWhile is_js_ws s)))"

text \<open>\<open>s.startsWith(p)\<close>, argument order as in the call.\<close>

fun js_starts_with :: "string \<Rightarrow> string \<Rightarrow> bool" where
  "js_starts_with s [] = True"
| "js_starts_with [] (c # p) = False"
| "js_starts_with (d # s) (c # p) = (d = c \<and> js_starts_with s p)"

text \<open>\<open>s.includes(w)\<close>: \<open>w\<close> occurs at some position of \<open>s\<close>.\<close>

fun js_includes :: "string \<Rightarrow> string \<Rightarrow> bool" where
  "js_includes [] w = (w = [])"
| "js_includes (c # s) w = (js_starts_with (c # s) w \<or> js_includes s w)"

text \<open>\<open>xs.join(sep)\<close>.\<close>

fun js_join :: "string \<Rightarrow> string list \<Rightarrow> string" where
  "js_join sep [] = []"
| "js_join sep [x] = x"
| "js_join sep (x # y # xs) = x @ sep @ js_join sep (y # xs)"

text \<open>
  \<open>s.replace(/\s+/g, r)\<close>: every maximal run of whitespace is replaced by \<open>r\<close>.
  The first argument says whether the scan is inside a run that has already been
  replaced.
\<close>

fun replace_ws_runs :: "bool \<Rightarrow> string \<Rightarrow> string \<Rightarrow> string" where
  "replace_ws_runs inrun r [] = []"
| "replace_ws_runs inrun r (c # s) =
     (if is_js_ws c then (if inrun then [] else r) @ replace_ws_runs True r s
      else c # replace_ws_runs False r s)"

definition js_replace_ws :: "string \<Rightarrow> string \<Rightarrow> string" where
  "js_replace_ws s r = replace_ws_runs False r s"

text \<open>\<open>String.prototype.toLowerCase\<close> on one ASCII code unit.\<close>

definition js_lower_char :: "char \<Rightarrow> char" where
  "js_lower_char c = (if is_ascii_upper c then char_of ((of_char c :: nat) + 32) else c)"

abbreviation js_lower :: "string \<Rightarrow> string" where
  "js_lower s \<equiv> map js_lower_char s"

text \<open>\<open>s.endsWith(t)\<close>.\<close>

definition js_ends_with :: "string \<Rightarrow> string \<Rightarrow> bool" where
  "js_ends_with s t \<longleftrightarrow> js_starts_with (rev s) (rev t)"

text \<open>\<open>s.split(c)\<close> for a one-character separator: the empty string gives \<open>['']\<close>.\<close>

fun js_split :: "char \<Rightarrow> string \<Rightarrow> string list" where
  "js_split c [] = [[]]"
| "js_split c (x # xs) =
     (if x = c then [] # js_split c xs
      else (case js_split c xs of [] \<Rightarrow> [[x]] | y # ys \<Rightarrow> (x # y) # ys))"

text \<open>\<open>String(n)\<close> for a non-negative integer: its decimal digits.\<close>

fun js_nat_string :: "nat \<Rightarrow> string" where
  "js_nat_string n =
     (if n < 10 then [char_of (48 + n)] else js_nat_string (n div 10) @ [char_of (48 + n mod 10)])"

section \<open>Lemmas on characters\<close>

lemma of_char_upper_lt [simp]:
  assumes "is_ascii_lower c"
  shows "(of_char (char_of ((of_char c :: nat) - 32)) :: nat) = of_char c - 32"
proof -
  have "(of_char c :: nat) - 32 < 256"
    using assms unfolding is_ascii_lower_def by linarith
  then show ?thesis by simp
qed

lemma js_upper_char_not_lower [simp]: "\<not> is_ascii_lower (js_upper_char c)"
  by (auto simp: js_upper_char_def is_ascii_lower_def)

lemma js_upper_char_idem [simp, js_string]: "js_upper_char (js_upper_char c) = js_upper_char c"
  by (simp add: js_upper_char_def [of "js_upper_char c"])

lemma js_upper_char_ws [simp, js_string]: "is_js_ws (js_upper_char c) = is_js_ws c"
  by (auto simp: js_upper_char_def is_js_ws_def is_ascii_lower_def)

lemma js_upper_char_digit [simp, js_string]: "is_ascii_digit (js_upper_char c) = is_ascii_digit c"
  by (auto simp: js_upper_char_def is_ascii_digit_def is_ascii_lower_def)

lemma js_upper_char_upper [simp, js_string]:
  "is_ascii_upper (js_upper_char c) = (is_ascii_upper c \<or> is_ascii_lower c)"
  by (auto simp: js_upper_char_def is_ascii_upper_def is_ascii_lower_def)

lemma js_upper_char_space [simp, js_string]: "js_upper_char CHR '' '' = CHR '' ''"
  by (simp add: js_upper_char_def is_ascii_lower_def)

lemma js_upper_char_quote [simp, js_string]: "(js_upper_char c = CHR 0x22) = (c = CHR 0x22)"
  by (auto simp: js_upper_char_def is_ascii_lower_def dest: arg_cong [where f = "of_char :: char \<Rightarrow> nat"])

lemma js_upper_char_comp [simp, js_string]: "js_upper_char \<circ> js_upper_char = js_upper_char"
  by (rule ext) simp

lemma js_upper_idem [simp, js_string]: "js_upper (js_upper s) = js_upper s"
  by (induction s) simp_all

section \<open>Lemmas on the string operations\<close>

lemma js_starts_with_prefix [js_string]: "js_starts_with s p \<longleftrightarrow> prefix p s"
  by (induction s p rule: js_starts_with.induct) auto

lemma js_includes_sublist [js_string]: "js_includes s w \<longleftrightarrow> sublist w s"
  by (induction s) (auto simp: js_starts_with_prefix sublist_Cons_right)

lemma prefix_sep: "prefix w (u @ c # v) \<Longrightarrow> c \<notin> set w \<Longrightarrow> prefix w u"
  by (auto simp: prefix_append prefix_Cons)

text \<open>A word without the character \<open>c\<close> that occurs in \<open>x @ c # y\<close> occurs in \<open>x\<close> or \<open>y\<close>.\<close>

lemma sublist_sep:
  "sublist w (x @ c # y) \<Longrightarrow> c \<notin> set w \<Longrightarrow> sublist w x \<or> sublist w y"
proof (induction x)
  case Nil
  then show ?case by (auto simp: sublist_Cons_right prefix_Cons)
next
  case (Cons a x)
  then show ?case
    by (metis append_Cons prefix_imp_sublist prefix_sep sublist_Cons_right)
qed

lemma sublist_append_mono:
  "sublist w x \<Longrightarrow> sublist w (x @ q)" "sublist w z \<Longrightarrow> sublist w (p @ z)"
  by (auto simp: sublist_def) (metis append.assoc)+

lemma sublist_join_sep:
  assumes "w \<noteq> []" and "c \<notin> set w"
  shows "sublist w (js_join [c] xs) \<longleftrightarrow> (\<exists>x \<in> set xs. sublist w x)"
  using assms
proof (induction "[c]" xs rule: js_join.induct)
  case (3 x y xs)
  have "sublist w (x @ c # js_join [c] (y # xs)) \<longleftrightarrow>
        sublist w x \<or> sublist w (js_join [c] (y # xs))"
    using sublist_sep [of w x c] "3.prems"(2)
    using sublist_append_mono [of w x "c # js_join [c] (y # xs)"]
          sublist_append_mono(2) [of w _ "x @ [c]"]
    by auto
  with "3" show ?case by simp
qed simp_all

lemma js_upper_join [js_string]: "js_upper (js_join sep xs) = js_join (js_upper sep) (map js_upper xs)"
  by (induction sep xs rule: js_join.induct) simp_all

lemma js_replace_ws_empty [js_string]: "js_replace_ws s [] = filter (\<lambda>c. \<not> is_js_ws c) s"
proof -
  have "replace_ws_runs b [] s = filter (\<lambda>c. \<not> is_js_ws c) s" for b
    by (induction s arbitrary: b) auto
  then show ?thesis by (simp add: js_replace_ws_def)
qed

lemma filter_dropWhile_same: "filter (\<lambda>c. \<not> P c) (dropWhile P s) = filter (\<lambda>c. \<not> P c) s"
  by (induction s) auto

lemma filter_ws_trim [js_string]:
  "filter (\<lambda>c. \<not> is_js_ws c) (js_trim s) = filter (\<lambda>c. \<not> is_js_ws c) s"
  by (simp add: js_trim_def filter_dropWhile_same rev_filter [symmetric])

lemma js_upper_trim [js_string]: "js_upper (js_trim s) = js_trim (js_upper s)"
  by (simp add: js_trim_def dropWhile_map rev_map comp_def)

lemma js_trim_ends:
  "js_trim s = [] \<or> \<not> is_js_ws (hd (js_trim s)) \<and> \<not> is_js_ws (last (js_trim s))"
  unfolding js_trim_def
  by (metis Nil_is_rev_conv dropWhile.simps(1) dropWhile_eq_Nil_conv
      dropWhile_last hd_dropWhile last_rev rev_rev_ident)

lemma js_trim_id:
  assumes "s = [] \<or> \<not> is_js_ws (hd s) \<and> \<not> is_js_ws (last s)"
  shows "js_trim s = s"
proof -
  have "dropWhile is_js_ws s = s" and "dropWhile is_js_ws (rev s) = rev s"
    using assms by (auto simp: dropWhile_eq_self_iff hd_rev)
  then show ?thesis by (simp add: js_trim_def)
qed

lemma js_trim_fixed_ends: "js_trim s = s \<Longrightarrow> s = [] \<or> \<not> is_js_ws (hd s) \<and> \<not> is_js_ws (last s)"
  using js_trim_ends [of s] by simp

lemma js_trim_idem [simp, js_string]: "js_trim (js_trim s) = js_trim s"
  using js_trim_ends [of s]
  by (metis js_trim_def dropWhile_eq_self_iff hd_rev rev_rev_ident rev_is_Nil_conv)

lemma js_trim_Nil [simp]: "js_trim [] = []"
  by (simp add: js_trim_def)

lemma sublist_filter: "sublist w y \<Longrightarrow> \<forall>c\<in>set w. P c \<Longrightarrow> sublist w (filter P y)"
  by (auto simp: sublist_def) metis

lemma js_trim_set: "set (js_trim s) \<subseteq> set s"
  unfolding js_trim_def by (metis set_dropWhileD set_rev subsetI)

lemma js_ends_with_suffix [js_string]: "js_ends_with s t \<longleftrightarrow> suffix t s"
  by (simp add: js_ends_with_def js_starts_with_prefix suffix_to_prefix)

lemma js_split_nonempty [simp]: "js_split c s \<noteq> []"
  by (induction s) (auto split: list.split)

lemma js_join_Cons_Cons [simp]: "js_join sep ((x # y) # ys) = x # js_join sep (y # ys)"
  by (cases ys) simp_all

lemma js_split_join [js_string]: "js_join [c] (js_split c s) = s"
proof (induction s)
  case (Cons x xs)
  then show ?case
    by (auto split: list.split)
qed simp

lemma js_split_no_sep: "y \<in> set (js_split c s) \<Longrightarrow> c \<notin> set y"
proof (induction s arbitrary: y)
  case (Cons x xs)
  then show ?case
    by (auto split: if_splits list.splits)
qed simp

lemma js_split_set: "y \<in> set (js_split c s) \<Longrightarrow> set y \<subseteq> set s"
proof (induction s arbitrary: y)
  case (Cons x xs)
  then show ?case
    by (auto split: if_splits list.splits) blast+
qed simp

lemma js_split_no_occ: "c \<notin> set s \<Longrightarrow> js_split c s = [s]"
  by (induction s) auto

lemma js_split_sep: "c \<notin> set a \<Longrightarrow> js_split c (a @ c # b) = a # js_split c b"
  by (induction a) auto

lemma js_split_length: "length (js_split c s) = count_list s c + 1"
  by (induction s) (auto split: list.split)

end
