(* ===== verification/Parse_Patterns.thy ===== *)
theory Parse_Patterns
  imports Prelude
begin

text \<open>
  The string predicates of \<open>src/js/parse.js\<close> that the extractor and the search use:
  \<open>cleanString\<close> (lines 9--12), the date-header pattern of line 101, the course-code
  pattern \<open>/^[A-Z]{2,4}\s*\d{3}/\<close> of lines 109--112, and the normalised search key
  of line 133. The course-code pattern is modelled as a backtracking matcher that
  follows the regular expression piece by piece; \<open>course_code_lang\<close> is the language
  the expression denotes, and \<open>course_code_test_lang\<close> proves that the matcher decides it.
\<close>

section \<open>cleanString\<close>

primrec cleanString :: "cell \<Rightarrow> string" where
  "cleanString (Str s) = js_upper (js_trim s)"
| "cleanString (Num r) = []"
| "cleanString (Bool b) = []"

section \<open>The date-header pattern\<close>

text \<open>The alternatives of the expression on line 101, in the source's order.\<close>

definition date_words :: "string list" where
  "date_words = [''MONDAY'', ''TUESDAY'', ''WEDNESDAY'', ''THURSDAY'', ''FRIDAY'', ''SATURDAY'',
     ''SUNDAY'', ''DECEMBER'', ''JANUARY'', ''FEBRUARY'', ''MARCH'', ''APRIL'', ''MAY'',
     ''JUNE'', ''JULY'', ''AUGUST'', ''SEPTEMBER'', ''OCTOBER'', ''NOVEMBER'']"

text \<open>
  \<open>s.match(/(MONDAY|...)/i)\<close> is non-null: with the \<open>i\<close> flag both sides are
  compared after upper-casing, and the words are upper case already.
\<close>

definition matches_date_word :: "string \<Rightarrow> bool" where
  "matches_date_word s = list_ex (\<lambda>w. js_includes (js_upper s) w) date_words"

section \<open>The course-code pattern\<close>

text \<open>\<open>\d{n}\<close> at the start of the input.\<close>

fun match_digits :: "nat \<Rightarrow> string \<Rightarrow> bool" where
  "match_digits 0 s = True"
| "match_digits (Suc n) [] = False"
| "match_digits (Suc n) (c # s) = (is_ascii_digit c \<and> match_digits n s)"

text \<open>\<open>\s*\d{3}\<close>: the star first consumes one more whitespace character, and backtracks.\<close>

fun match_ws_digits :: "string \<Rightarrow> bool" where
  "match_ws_digits [] = match_digits 3 []"
| "match_ws_digits (c # s) = ((is_js_ws c \<and> match_ws_digits s) \<or> match_digits 3 (c # s))"

text \<open>
  \<open>[A-Z]{lo,hi}\<close> followed by \<open>\s*\d{3}\<close>: \<open>lo\<close> letters are still required and
  at most \<open>hi\<close> more may be taken; the greedy quantifier tries one more letter first.
\<close>

fun match_letters :: "nat \<Rightarrow> nat \<Rightarrow> string \<Rightarrow> bool" where
  "match_letters lo 0 s = (lo = 0 \<and> match_ws_digits s)"
| "match_letters lo (Suc hi) [] = (lo = 0 \<and> match_ws_digits [])"
| "match_letters lo (Suc hi) (c # s) =
     ((is_ascii_upper c \<and> match_letters (lo - 1) hi s) \<or> (lo = 0 \<and> match_ws_digits (c # s)))"

text \<open>\<open>/^[A-Z]{2,4}\s*\d{3}/.test(s)\<close>: anchored at the start, not at the end.\<close>

definition course_code_test :: "string \<Rightarrow> bool" where
  "course_code_test s = match_letters 2 4 s"

text \<open>The language of the expression: a prefix of the input of the shape below.\<close>

definition course_code_lang :: "string \<Rightarrow> bool" where
  "course_code_lang s \<longleftrightarrow>
     (\<exists>a w d rest. s = a @ w @ d @ rest \<and> 2 \<le> length a \<and> length a \<le> 4 \<and>
        list_all is_ascii_upper a \<and> list_all is_js_ws w \<and>
        length d = 3 \<and> list_all is_ascii_digit d)"

section \<open>The search key\<close>

text \<open>\<open>cleanString(col1).replace(/\s+/g, '')\<close> (line 133, and line 73 of search.js).\<close>

definition searchable :: "string \<Rightarrow> string" where
  "searchable s = js_replace_ws (cleanString (Str s)) []"

section \<open>Lemmas: the matcher decides the language\<close>

lemma match_digits_iff:
  "match_digits n s \<longleftrightarrow> (\<exists>d rest. s = d @ rest \<and> length d = n \<and> list_all is_ascii_digit d)"
proof (induction n s rule: match_digits.induct)
  case (3 n c s)
  show ?case
  proof
    assume "match_digits (Suc n) (c # s)"
    with "3.IH" obtain d rest where "s = d @ rest" "length d = n" "list_all is_ascii_digit d"
      "is_ascii_digit c" by auto
    then show "\<exists>d rest. c # s = d @ rest \<and> length d = Suc n \<and> list_all is_ascii_digit d"
      by (intro exI [of _ "c # d"] exI [of _ rest]) simp
  next
    assume "\<exists>d rest. c # s = d @ rest \<and> length d = Suc n \<and> list_all is_ascii_digit d"
    then obtain d rest where "c # s = d @ rest" "length d = Suc n" "list_all is_ascii_digit d"
      by blast
    with "3.IH" show "match_digits (Suc n) (c # s)"
      by (cases d) auto
  qed
qed auto

lemma match_ws_digits_iff:
  "match_ws_digits s \<longleftrightarrow>
     (\<exists>w d rest. s = w @ d @ rest \<and> list_all is_js_ws w \<and> length d = 3 \<and> list_all is_ascii_digit d)"
proof (induction s)
  case Nil
  then show ?case by (simp add: match_digits_iff)
next
  case (Cons c s)
  show ?case
  proof
    assume "match_ws_digits (c # s)"
    then consider "is_js_ws c" "match_ws_digits s" | "match_digits 3 (c # s)"
      by auto
    then show "\<exists>w d rest. c # s = w @ d @ rest \<and> list_all is_js_ws w \<and>
        length d = 3 \<and> list_all is_ascii_digit d"
    proof cases
      case 1
      with Cons.IH obtain w d rest where "s = w @ d @ rest" "list_all is_js_ws w"
        "length d = 3" "list_all is_ascii_digit d" by blast
      with 1 show ?thesis by (intro exI [of _ "c # w"] exI [of _ d] exI [of _ rest]) simp
    next
      case 2
      then obtain d rest where "c # s = d @ rest" "length d = 3" "list_all is_ascii_digit d"
        by (auto simp only: match_digits_iff)
      then show ?thesis by (intro exI [of _ "[]"] exI [of _ d] exI [of _ rest]) simp
    qed
  next
    assume "\<exists>w d rest. c # s = w @ d @ rest \<and> list_all is_js_ws w \<and>
        length d = 3 \<and> list_all is_ascii_digit d"
    then obtain w d rest where split: "c # s = w @ d @ rest" "list_all is_js_ws w"
      "length d = 3" "list_all is_ascii_digit d" by blast
    show "match_ws_digits (c # s)"
    proof (cases w)
      case Nil
      with split have "match_digits 3 (c # s)"
        unfolding match_digits_iff by auto
      then show ?thesis by simp
    next
      case (Cons c' w')
      with split Cons.IH have "is_js_ws c" "match_ws_digits s"
        by auto
      then show ?thesis by simp
    qed
  qed
qed

lemma match_letters_iff:
  "match_letters lo hi s \<longleftrightarrow>
     (\<exists>a t. s = a @ t \<and> lo \<le> length a \<and> length a \<le> hi \<and> list_all is_ascii_upper a \<and>
        match_ws_digits t)"
proof (induction lo hi s rule: match_letters.induct)
  case (3 lo hi c s)
  show ?case
  proof
    assume "match_letters lo (Suc hi) (c # s)"
    then consider "is_ascii_upper c" "match_letters (lo - 1) hi s"
      | "lo = 0" "match_ws_digits (c # s)"
      by auto
    then show "\<exists>a t. c # s = a @ t \<and> lo \<le> length a \<and> length a \<le> Suc hi \<and>
        list_all is_ascii_upper a \<and> match_ws_digits t"
    proof cases
      case 1
      with "3.IH" obtain a t where "s = a @ t" "lo - 1 \<le> length a" "length a \<le> hi"
        "list_all is_ascii_upper a" "match_ws_digits t" by blast
      with 1 show ?thesis by (intro exI [of _ "c # a"] exI [of _ t]) auto
    next
      case 2
      then show ?thesis by (intro exI [of _ "[]"] exI [of _ "c # s"]) simp
    qed
  next
    assume "\<exists>a t. c # s = a @ t \<and> lo \<le> length a \<and> length a \<le> Suc hi \<and>
        list_all is_ascii_upper a \<and> match_ws_digits t"
    then obtain a t where "c # s = a @ t" "lo \<le> length a" "length a \<le> Suc hi"
      "list_all is_ascii_upper a" "match_ws_digits t" by blast
    with "3.IH" show "match_letters lo (Suc hi) (c # s)"
      by (cases a) auto
  qed
qed auto

section \<open>Lemmas on the date pattern and the search key\<close>

lemma matches_date_word_iff:
  "matches_date_word s \<longleftrightarrow> (\<exists>w \<in> set date_words. sublist w (js_upper s))"
  by (simp add: matches_date_word_def list_ex_iff js_string)

lemma matches_date_word_Nil [simp]: "\<not> matches_date_word []"
  by (simp add: matches_date_word_def date_words_def)

lemma matches_date_word_upper [simp]: "matches_date_word (js_upper s) = matches_date_word s"
  by (simp add: matches_date_word_def comp_def)

lemma date_words_no_quote: "w \<in> set date_words \<Longrightarrow> CHR 0x22 \<notin> set w"
  by (auto simp: date_words_def)

lemma cleanString_Str_trim [simp]: "cleanString (Str (js_trim s)) = cleanString (Str s)"
  by simp

lemma searchable_filter: "searchable s = filter (\<lambda>c. \<not> is_js_ws c) (js_upper s)"
  by (simp add: searchable_def js_string)

lemma course_code_test_Nil [simp]: "\<not> course_code_test []"
  by code_simp

lemmas course_code_unfold = course_code_test_def match_letters_iff match_ws_digits_iff

section \<open>Properties of the patterns\<close>

text \<open>
  C19. The matcher for \<open>/^[A-Z]{2,4}\s*\d{3}/\<close> decides the language of the
  expression: the input starts with 2 to 4 ASCII capitals, any whitespace and 3 digits.
\<close>

theorem course_code_test_lang: "course_code_test s \<longleftrightarrow> course_code_lang s"
proof
  assume "course_code_test s"
  then obtain a w d rest where "s = a @ w @ d @ rest" "2 \<le> length a" "length a \<le> 4"
    "list_all is_ascii_upper a" "list_all is_js_ws w" "length d = 3" "list_all is_ascii_digit d"
    by (auto simp: course_code_unfold)
  then show "course_code_lang s"
    unfolding course_code_lang_def by blast
next
  assume "course_code_lang s"
  then obtain a w d rest where "s = a @ w @ d @ rest" "2 \<le> length a" "length a \<le> 4"
    "list_all is_ascii_upper a" "list_all is_js_ws w" "length d = 3" "list_all is_ascii_digit d"
    unfolding course_code_lang_def by blast
  then show "course_code_test s"
    unfolding course_code_unfold by blast
qed

text \<open>
  C20. The search key is in normal form: it has no whitespace and no lower-case letter,
  and normalising it again leaves it unchanged.
\<close>

theorem searchable_normal:
  "list_all (\<lambda>c. \<not> is_js_ws c \<and> \<not> is_ascii_lower c) (searchable s) \<and>
   searchable (searchable s) = searchable s"
proof -
  have up: "js_upper (filter (\<lambda>c. \<not> is_js_ws c) x) = filter (\<lambda>c. \<not> is_js_ws c) (js_upper x)" for x
    by (induction x) simp_all
  show ?thesis
    by (auto simp: searchable_filter list_all_iff up)
qed

text \<open>
  C21. The course-code test is anchored at the start only: any text that extends a
  matching cell also matches (\<open>CS101 Intro\<close> is accepted as a course code).
\<close>

theorem course_code_test_extend:
  assumes "course_code_test s"
  shows "course_code_test (s @ t)"
proof -
  from assms obtain a w d rest where "s = a @ w @ d @ rest" "2 \<le> length a" "length a \<le> 4"
    "list_all is_ascii_upper a" "list_all is_js_ws w" "length d = 3" "list_all is_ascii_digit d"
    by (auto simp: course_code_unfold)
  then have "s @ t = a @ w @ d @ (rest @ t)" "2 \<le> length a" "length a \<le> 4"
    "list_all is_ascii_upper a" "list_all is_js_ws w" "length d = 3" "list_all is_ascii_digit d"
    by simp_all
  then show ?thesis
    unfolding course_code_unfold by blast
qed

theorem course_code_test_extend_witness: "course_code_test (''CS101'' @ '' Intro'')"
proof -
  have "course_code_test ''CS101''" by code_simp
  then show ?thesis by (rule course_code_test_extend)
qed

end
