(* ===== verification/Exam_Extractor.thy ===== *)
theory Exam_Extractor
  imports Parse_Patterns
begin

text \<open>
  \<open>extractExamData\<close> of \<open>src/js/parse.js\<close> (lines 71--143): the header search that
  fixes where the data region begins, the per-row handler with its carry-over state
  (\<open>currentExamDate\<close>, \<open>currentExamTime\<close>) and the forward scan that collects the
  entries. The handler is also given as an inductive step relation, one rule per branch
  of the loop body, with its reachable states; the invariants of the entries are proved
  by rule induction over them. A declarative description of the output (the date of the
  last header above a row, the last time given in its date block) is proved equal to the
  scan.
\<close>

section \<open>Data\<close>

text \<open>The object literal \<open>courseData\<close> of lines 125--134 (\<open>section\<close> is \<open>sectionId\<close>).\<close>

record exam_entry =
  examDate :: string
  time :: string
  courseCode :: string
  sectionId :: string
  title :: string
  instructor :: string
  room :: string
  searchableCode :: string

text \<open>The locals of the loop: \<open>processedData\<close>, \<open>currentExamDate\<close>, \<open>currentExamTime\<close>.\<close>

record scan_state =
  processedData :: "exam_entry list"
  currentExamDate :: string
  currentExamTime :: string

definition init_scan :: scan_state where
  "init_scan = \<lparr>processedData = [], currentExamDate = [], currentExamTime = []\<rparr>"

section \<open>Locating the data region\<close>

text \<open>\<open>(rawData[i] || []).join(' ').toUpperCase()\<close> tested for \<open>COURSE\<close> or \<open>TIME\<close>.\<close>

definition is_header_row :: "row \<Rightarrow> bool" where
  "is_header_row r \<longleftrightarrow>
     (let rowText = js_upper (js_join '' '' (map js_String r))
      in js_includes rowText ''COURSE'' \<or> js_includes rowText ''TIME'')"

text \<open>The loop of lines 78--84 from index \<open>i\<close>: the first header row at index \<open>j\<close> gives \<open>j + 1\<close>.\<close>

fun header_scan :: "nat \<Rightarrow> grid \<Rightarrow> nat" where
  "header_scan i [] = 0"
| "header_scan i (r # rs) = (if is_header_row r then Suc i else header_scan (Suc i) rs)"

text \<open>\<open>i < Math.min(20, rawData.length)\<close>: only the first 20 rows are looked at.\<close>

definition dataStart :: "grid \<Rightarrow> nat" where
  "dataStart rawData = header_scan 0 (take 20 rawData)"

section \<open>One row\<close>

text \<open>\<open>String(row[i] || '').trim()\<close>.\<close>

definition cell_text :: "row \<Rightarrow> nat \<Rightarrow> string" where
  "cell_text r i = js_trim (js_String (cell_or_empty r i))"

text \<open>\<open>.replace(/"/g, '')\<close>.\<close>

definition strip_quotes :: "string \<Rightarrow> string" where
  "strip_quotes s = filter (\<lambda>c. c \<noteq> CHR 0x22) s"

definition courseData :: "string \<Rightarrow> string \<Rightarrow> string \<Rightarrow> row \<Rightarrow> exam_entry" where
  "courseData date timeValue col1 r =
     \<lparr>examDate = date, time = timeValue, courseCode = col1,
      sectionId = cell_text r 2, title = cell_text r 3, instructor = cell_text r 5,
      room = cell_text r 6, searchableCode = searchable col1\<rparr>"

text \<open>
  The body of the loop of lines 89--138: a short row is skipped; a date header (checked
  first) sets the date and clears the time; a course row takes its time from cell 0 or,
  when that is blank, from \<open>currentExamTime\<close>, and appends one entry; any other row is
  dropped.
\<close>

definition process_row :: "scan_state \<Rightarrow> row \<Rightarrow> scan_state" where
  "process_row st r =
     (if length r < 2 then st
      else if matches_date_word (cleanString (cell_or_empty r 0)) then
        st\<lparr>currentExamDate := strip_quotes (js_trim (js_String (r ! 0))), currentExamTime := []\<rparr>
      else
        (let col1 = cell_text r 1 in
         if course_code_test (cleanString (Str col1)) then
           (let timeValue = cell_text r 0;
                st' = (if timeValue \<noteq> [] then st\<lparr>currentExamTime := timeValue\<rparr> else st);
                timeValue' = (if timeValue \<noteq> [] then timeValue else currentExamTime st)
            in st'\<lparr>processedData :=
                 processedData st @ [courseData (currentExamDate st) timeValue' col1 r]\<rparr>)
         else st))"

section \<open>The scan\<close>

fun scan_rows :: "scan_state \<Rightarrow> grid \<Rightarrow> scan_state" where
  "scan_rows st [] = st"
| "scan_rows st (r # rs) = scan_rows (process_row st r) rs"

definition extractExamData :: "grid \<Rightarrow> exam_entry list" where
  "extractExamData rawData = processedData (scan_rows init_scan (drop (dataStart rawData) rawData))"

text \<open>The end-to-end example grid of the specification (section 8).\<close>

definition spec_example_grid :: grid where
  "spec_example_grid =
     [[Str ''Header'', Str ''Time'', Str ''Course'', Str ''Section'', Str ''Title''],
      [Str ''MONDAY, JAN 5''],
      [Str ''9:00 AM'', Str ''CS 101'', Str ''001'', Str ''Intro to CS''],
      [Str '''', Str ''CS 102'', Str ''002'', Str ''Data Structures'']]"

section \<open>The loop body as a step relation\<close>

text \<open>One rule per branch of the loop body, with the branch's guard as premises.\<close>

inductive scan_step :: "scan_state \<Rightarrow> row \<Rightarrow> scan_state \<Rightarrow> bool" where
  short_row: "length r < 2 \<Longrightarrow> scan_step st r st"
| date_header: "\<not> length r < 2 \<Longrightarrow> matches_date_word (cleanString (cell_or_empty r 0)) \<Longrightarrow>
    scan_step st r (st\<lparr>currentExamDate := strip_quotes (js_trim (js_String (r ! 0))),
                       currentExamTime := []\<rparr>)"
| course_timed: "\<not> length r < 2 \<Longrightarrow> \<not> matches_date_word (cleanString (cell_or_empty r 0)) \<Longrightarrow>
    course_code_test (cleanString (Str (cell_text r 1))) \<Longrightarrow> cell_text r 0 \<noteq> [] \<Longrightarrow>
    scan_step st r (st\<lparr>currentExamTime := cell_text r 0,
      processedData := processedData st @ [courseData (currentExamDate st) (cell_text r 0) (cell_text r 1) r]\<rparr>)"
| course_carried: "\<not> length r < 2 \<Longrightarrow> \<not> matches_date_word (cleanString (cell_or_empty r 0)) \<Longrightarrow>
    course_code_test (cleanString (Str (cell_text r 1))) \<Longrightarrow> cell_text r 0 = [] \<Longrightarrow>
    scan_step st r (st\<lparr>processedData :=
      processedData st @ [courseData (currentExamDate st) (currentExamTime st) (cell_text r 1) r]\<rparr>)"
| other_row: "\<not> length r < 2 \<Longrightarrow> \<not> matches_date_word (cleanString (cell_or_empty r 0)) \<Longrightarrow>
    \<not> course_code_test (cleanString (Str (cell_text r 1))) \<Longrightarrow> scan_step st r st"

code_pred scan_step .

text \<open>The states the scan can be in after any sequence of rows.\<close>

inductive scan_reachable :: "scan_state \<Rightarrow> bool" where
  scan_init: "scan_reachable init_scan"
| scan_next: "scan_reachable st \<Longrightarrow> scan_step st r st' \<Longrightarrow> scan_reachable st'"

section \<open>Invariants of the entries\<close>

text \<open>
  What every emitted entry satisfies: its search key is the whitespace-free upper-case
  course code, the code is trimmed and passes the course-code test in upper case, and its
  date is empty or a text holding a weekday or month name.
\<close>

definition entry_ok :: "exam_entry \<Rightarrow> bool" where
  "entry_ok e \<longleftrightarrow>
     searchableCode e = filter (\<lambda>c. \<not> is_js_ws c) (js_upper (courseCode e)) \<and>
     course_code_test (js_upper (courseCode e)) \<and> js_trim (courseCode e) = courseCode e \<and>
     (examDate e = [] \<or> matches_date_word (examDate e))"

definition scan_inv :: "scan_state \<Rightarrow> bool" where
  "scan_inv st \<longleftrightarrow>
     list_all entry_ok (processedData st) \<and>
     (currentExamDate st = [] \<or> matches_date_word (currentExamDate st))"

section \<open>A declarative description of the output\<close>

text \<open>
  The same output without carried state: the entry of a course row has the date of the
  last date header above it in the data region, and its own time or else the last
  non-empty time of a course row since that header. Rows are classified by the guards of
  the loop body.
\<close>

definition is_date_row :: "row \<Rightarrow> bool" where
  "is_date_row r \<longleftrightarrow> 2 \<le> length r \<and> matches_date_word (cleanString (cell_or_empty r 0))"

definition is_course_row :: "row \<Rightarrow> bool" where
  "is_course_row r \<longleftrightarrow>
     2 \<le> length r \<and> \<not> is_date_row r \<and> course_code_test (cleanString (Str (cell_text r 1)))"

definition date_text :: "row \<Rightarrow> string" where
  "date_text r = strip_quotes (js_trim (js_String (r ! 0)))"

definition last_date :: "grid \<Rightarrow> string" where
  "last_date rs = (let ds = filter is_date_row rs in if ds = [] then [] else date_text (last ds))"

definition block_times :: "grid \<Rightarrow> string list" where
  "block_times rs =
     filter (\<lambda>t. t \<noteq> []) (map (\<lambda>r. cell_text r 0)
       (filter is_course_row (rev (takeWhile (\<lambda>r. \<not> is_date_row r) (rev rs)))))"

definition last_time :: "grid \<Rightarrow> string" where
  "last_time rs = (let ts = block_times rs in if ts = [] then [] else last ts)"

definition spec_entry :: "grid \<Rightarrow> nat \<Rightarrow> exam_entry" where
  "spec_entry rs i =
     courseData (last_date (take i rs))
       (if cell_text (rs ! i) 0 \<noteq> [] then cell_text (rs ! i) 0 else last_time (take i rs))
       (cell_text (rs ! i) 1) (rs ! i)"

definition spec_entries :: "grid \<Rightarrow> exam_entry list" where
  "spec_entries rs = map (spec_entry rs) (filter (\<lambda>i. is_course_row (rs ! i)) [0..<length rs])"

section \<open>Lemmas: the step relation is the loop body\<close>

lemma scan_step_process_row: "scan_step st r (process_row st r)"
proof -
  let ?date = "matches_date_word (cleanString (cell_or_empty r 0))"
  let ?course = "course_code_test (cleanString (Str (cell_text r 1)))"
  consider (short) "length r < 2"
    | (date) "\<not> length r < 2" ?date
    | (timed) "\<not> length r < 2" "\<not> ?date" ?course "cell_text r 0 \<noteq> []"
    | (carried) "\<not> length r < 2" "\<not> ?date" ?course "cell_text r 0 = []"
    | (other) "\<not> length r < 2" "\<not> ?date" "\<not> ?course"
    by blast
  then show ?thesis
  proof cases
    case short
    then show ?thesis by (simp add: process_row_def scan_step.short_row)
  next
    case date
    then have eq: "process_row st r =
        st\<lparr>currentExamDate := strip_quotes (js_trim (js_String (r ! 0))), currentExamTime := []\<rparr>"
      by (simp add: process_row_def)
    show ?thesis unfolding eq using date by (rule scan_step.date_header)
  next
    case timed
    then have eq: "process_row st r = st\<lparr>currentExamTime := cell_text r 0,
      processedData := processedData st @ [courseData (currentExamDate st) (cell_text r 0) (cell_text r 1) r]\<rparr>"
      by (simp add: process_row_def Let_def)
    show ?thesis unfolding eq using timed by (rule scan_step.course_timed)
  next
    case carried
    then have eq: "process_row st r = st\<lparr>processedData :=
      processedData st @ [courseData (currentExamDate st) (currentExamTime st) (cell_text r 1) r]\<rparr>"
      by (simp add: process_row_def Let_def)
    show ?thesis unfolding eq using carried by (rule scan_step.course_carried)
  next
    case other
    then have eq: "process_row st r = st"
      by (simp add: process_row_def Let_def)
    show ?thesis unfolding eq using other by (rule scan_step.other_row)
  qed
qed


section \<open>Lemmas: the invariant\<close>

lemma strip_quotes_upper: "js_upper (strip_quotes s) = strip_quotes (js_upper s)"
  by (induction s) (simp_all add: strip_quotes_def)

lemma matches_date_word_strip_quotes:
  assumes "matches_date_word s"
  shows "matches_date_word (strip_quotes s)"
proof -
  from assms obtain w where w: "w \<in> set date_words" "sublist w (js_upper s)"
    by (auto simp: matches_date_word_iff)
  then have "sublist w (strip_quotes (js_upper s))"
    unfolding strip_quotes_def using date_words_no_quote by (blast intro: sublist_filter)
  with w show ?thesis by (auto simp: matches_date_word_iff strip_quotes_upper)
qed

lemma date_cell:
  assumes "matches_date_word (cleanString (cell_or_empty r 0))"
  shows "\<exists>s. r ! 0 = Str s \<and> 0 < length r \<and> cleanString (cell_or_empty r 0) = js_upper (js_trim s)"
  using assms by (cases "r ! 0") (auto simp: cell_or_empty_def split: if_splits)

lemma date_header_date_ok:
  "matches_date_word (cleanString (cell_or_empty r 0)) \<Longrightarrow>
   matches_date_word (strip_quotes (js_trim (js_String (r ! 0))))"
  using date_cell [of r] by (auto intro: matches_date_word_strip_quotes)

lemma cell_text_trim [simp]: "js_trim (cell_text r i) = cell_text r i"
  by (simp add: cell_text_def)

lemma course_entry_ok:
  "course_code_test (js_upper col1) \<Longrightarrow> js_trim col1 = col1 \<Longrightarrow> d = [] \<or> matches_date_word d \<Longrightarrow>
   entry_ok (courseData d t col1 r)"
  by (simp add: entry_ok_def courseData_def searchable_filter)

lemma scan_step_inv: "scan_step st r st' \<Longrightarrow> scan_inv st \<Longrightarrow> scan_inv st'"
  by (induction rule: scan_step.induct)
     (auto simp: scan_inv_def course_entry_ok date_header_date_ok)

lemma scan_reachable_inv: "scan_reachable st \<Longrightarrow> scan_inv st"
proof (induction rule: scan_reachable.induct)
  case scan_init
  show ?case by (simp add: scan_inv_def init_scan_def)
next
  case (scan_next st r st')
  then show ?case by (blast intro: scan_step_inv)
qed

lemma scan_rows_reachable: "scan_reachable st \<Longrightarrow> scan_reachable (scan_rows st rs)"
  by (induction rs arbitrary: st) (auto intro: scan_reachable.scan_next scan_step_process_row)

lemma extract_entry_ok: "e \<in> set (extractExamData g) \<Longrightarrow> entry_ok e"
proof -
  assume e: "e \<in> set (extractExamData g)"
  have "scan_inv (scan_rows init_scan (drop (dataStart g) g))"
    by (rule scan_reachable_inv [OF scan_rows_reachable [OF scan_reachable.scan_init]])
  with e show "entry_ok e"
    by (auto simp: scan_inv_def extractExamData_def list_all_iff)
qed

section \<open>Lemmas: the scan refines the declarative description\<close>

lemma scan_rows_snoc: "scan_rows st (xs @ [x]) = process_row (scan_rows st xs) x"
  by (induction xs arbitrary: st) simp_all

lemma last_date_snoc:
  "last_date (xs @ [x]) = (if is_date_row x then date_text x else last_date xs)"
  by (simp add: last_date_def Let_def)

lemma block_times_snoc:
  "block_times (xs @ [x]) =
     (if is_date_row x then []
      else block_times xs @ (if is_course_row x \<and> cell_text x 0 \<noteq> [] then [cell_text x 0] else []))"
  by (cases "is_date_row x") (simp_all add: block_times_def)

lemma last_time_snoc:
  "last_time (xs @ [x]) =
     (if is_date_row x then []
      else if is_course_row x \<and> cell_text x 0 \<noteq> [] then cell_text x 0 else last_time xs)"
  by (simp add: last_time_def block_times_snoc Let_def)

lemma spec_entry_prefix: "i < length xs \<Longrightarrow> spec_entry (xs @ ys) i = spec_entry xs i"
  by (simp add: spec_entry_def nth_append)

lemma spec_entries_snoc:
  "spec_entries (xs @ [x]) =
     spec_entries xs @
     (if is_course_row x then
        [courseData (last_date xs)
           (if cell_text x 0 \<noteq> [] then cell_text x 0 else last_time xs) (cell_text x 1) x]
      else [])"
proof -
  have "filter (\<lambda>i. is_course_row ((xs @ [x]) ! i)) [0..<length xs] =
        filter (\<lambda>i. is_course_row (xs ! i)) [0..<length xs]"
    by (rule filter_cong) (simp_all add: nth_append)
  moreover have "map (spec_entry (xs @ [x])) (filter (\<lambda>i. is_course_row (xs ! i)) [0..<length xs]) =
        spec_entries xs"
    unfolding spec_entries_def by (rule map_cong) (simp_all add: spec_entry_prefix)
  ultimately have "map (spec_entry (xs @ [x])) (filter (\<lambda>i. is_course_row ((xs @ [x]) ! i)) [0..<length xs]) =
        spec_entries xs"
    by simp
  then show ?thesis
    by (simp add: spec_entries_def spec_entry_def)
qed

lemma scan_rows_spec:
  "processedData (scan_rows init_scan rs) = spec_entries rs \<and>
   currentExamDate (scan_rows init_scan rs) = last_date rs \<and>
   currentExamTime (scan_rows init_scan rs) = last_time rs"
proof (induction rs rule: rev_induct)
  case Nil
  show ?case
    by (simp add: init_scan_def spec_entries_def last_date_def last_time_def block_times_def)
next
  case (snoc x xs)
  then show ?case
    by (simp add: scan_rows_snoc spec_entries_snoc last_date_snoc last_time_snoc
        process_row_def Let_def is_course_row_def is_date_row_def date_text_def)
qed

section \<open>Lemmas: the header search\<close>

lemma header_scan_bound: "header_scan i rs \<le> i + length rs"
proof (induction rs arbitrary: i)
  case (Cons r rs)
  then show ?case using Cons.IH [of "Suc i"] by simp
qed simp

lemma header_scan_least:
  "header_scan i rs =
     (if \<exists>j < length rs. is_header_row (rs ! j)
      then Suc (i + (LEAST j. j < length rs \<and> is_header_row (rs ! j))) else 0)"
proof (induction rs arbitrary: i)
  case Nil
  show ?case by simp
next
  case (Cons r rs)
  show ?case
  proof (cases "is_header_row r")
    case True
    then show ?thesis by (auto intro: Least_eq_0)
  next
    case False
    have ex: "(\<exists>j < length (r # rs). is_header_row ((r # rs) ! j)) \<longleftrightarrow>
              (\<exists>j < length rs. is_header_row (rs ! j))"
    proof
      assume "\<exists>j < length (r # rs). is_header_row ((r # rs) ! j)"
      then obtain j where "j < Suc (length rs)" "is_header_row ((r # rs) ! j)" by auto
      with False show "\<exists>j < length rs. is_header_row (rs ! j)" by (cases j) auto
    next
      assume "\<exists>j < length rs. is_header_row (rs ! j)"
      then obtain j where "j < length rs" "is_header_row (rs ! j)" by auto
      then show "\<exists>j < length (r # rs). is_header_row ((r # rs) ! j)"
        by (intro exI [of _ "Suc j"]) simp
    qed
    have least: "(LEAST j. j < length (r # rs) \<and> is_header_row ((r # rs) ! j)) =
      Suc (LEAST j. j < length rs \<and> is_header_row (rs ! j))"
      if "\<exists>j < length rs. is_header_row (rs ! j)"
    proof -
      from that obtain j where j: "j < length rs" "is_header_row (rs ! j)" by auto
      have "(LEAST k. k < length (r # rs) \<and> is_header_row ((r # rs) ! k)) =
        Suc (LEAST m. Suc m < length (r # rs) \<and> is_header_row ((r # rs) ! Suc m))"
        by (rule Least_Suc [of _ "Suc j"]) (use j False in auto)
      then show ?thesis by simp
    qed
    show ?thesis
    proof (cases "\<exists>j < length rs. is_header_row (rs ! j)")
      case True
      with False show ?thesis
        using Cons.IH [of "Suc i"] ex least [OF True] by simp
    next
      case none: False
      have "\<not> (\<exists>j < length (r # rs). is_header_row ((r # rs) ! j))"
        using ex none by blast
      with False none show ?thesis
        using Cons.IH [of "Suc i"] by (simp only: header_scan.simps if_False)
    qed
  qed
qed

lemma is_header_row_word:
  assumes "w \<noteq> []" and "CHR '' '' \<notin> set w"
  shows "js_includes (js_upper (js_join '' '' (map js_String r))) w \<longleftrightarrow>
         (\<exists>c \<in> set r. js_includes (js_upper (js_String c)) w)"
proof -
  have "js_upper (js_join '' '' (map js_String r)) = js_join [CHR '' ''] (map (\<lambda>c. js_upper (js_String c)) r)"
    by (simp add: js_upper_join comp_def)
  then show ?thesis
    using sublist_join_sep [OF assms, of "map (\<lambda>c. js_upper (js_String c)) r"]
    by (simp add: js_includes_sublist)
qed

section \<open>Lemmas: rows that leave the scan alone\<close>

lemma scan_rows_append: "scan_rows st (xs @ ys) = scan_rows (scan_rows st xs) ys"
  by (induction xs arbitrary: st) simp_all

lemma header_scan_append: "header_scan i xs \<noteq> 0 \<Longrightarrow> header_scan i (xs @ ys) = header_scan i xs"
  by (induction xs arbitrary: i) auto

lemma dataStart_append:
  assumes "0 < dataStart g1"
  shows "dataStart (g1 @ g2) = dataStart g1 \<and> dataStart g1 \<le> length g1"
proof -
  have "take 20 (g1 @ g2) = take 20 g1 @ take (20 - length g1) g2" by simp
  then have "dataStart (g1 @ g2) = dataStart g1"
    using assms header_scan_append [of 0 "take 20 g1"] by (simp add: dataStart_def)
  moreover have "dataStart g1 \<le> length g1"
    using header_scan_bound [of 0 "take 20 g1"] by (simp add: dataStart_def)
  ultimately show ?thesis by simp
qed

section \<open>Properties of the extractor\<close>

text \<open>
  C1. Every entry that \<open>extractExamData\<close> emits has as its search key the course
  code upper-cased with all whitespace removed: \<open>searchableCode\<close> is a function of
  \<open>courseCode\<close>.
\<close>

theorem extract_searchable_key:
  assumes "e \<in> set (extractExamData g)"
  shows "searchableCode e = filter (\<lambda>c. \<not> is_js_ws c) (js_upper (courseCode e))"
  using extract_entry_ok [OF assms] by (simp add: entry_ok_def)

theorem extract_searchable_key_witness:
  "hd (extractExamData spec_example_grid) \<in> set (extractExamData spec_example_grid) \<and>
   searchableCode (hd (extractExamData spec_example_grid)) = ''CS101''"
proof -
  have h: "hd (extractExamData spec_example_grid) \<in> set (extractExamData spec_example_grid)"
    by code_simp
  have "searchableCode (hd (extractExamData spec_example_grid)) =
        filter (\<lambda>c. \<not> is_js_ws c) (js_upper (courseCode (hd (extractExamData spec_example_grid))))"
    by (rule extract_searchable_key [OF h])
  also have "\<dots> = ''CS101''" by code_simp
  finally show ?thesis using h by simp
qed

text \<open>
  C2. Refinement: the output of \<open>extractExamData\<close> is the declarative description
  applied to the data region. The entries are those of the course rows in increasing row
  order; each carries the text of the last date header above it (or the empty string)
  and its own time, or else the last non-empty time of a course row since that header.
\<close>

theorem extract_refines_spec:
  "extractExamData g = spec_entries (drop (dataStart g) g)"
  using scan_rows_spec by (simp add: extractExamData_def)

text \<open>
  C3. \<open>extractExamData\<close> never emits an entry whose cell 1 fails the course-code
  pattern: the upper-cased course code of every entry starts with 2 to 4 capital
  letters, optional whitespace and 3 digits.
\<close>

theorem extract_course_pattern:
  assumes "e \<in> set (extractExamData g)"
  shows "course_code_lang (js_upper (courseCode e))"
  using extract_entry_ok [OF assms]
  by (auto simp: entry_ok_def course_code_lang_def course_code_unfold)

theorem extract_course_pattern_witness:
  "last (extractExamData spec_example_grid) \<in> set (extractExamData spec_example_grid) \<and>
   course_code_lang ''CS 102''"
proof -
  have h: "last (extractExamData spec_example_grid) \<in> set (extractExamData spec_example_grid)"
    by code_simp
  have "course_code_lang (js_upper (courseCode (last (extractExamData spec_example_grid))))"
    by (rule extract_course_pattern [OF h])
  moreover have "js_upper (courseCode (last (extractExamData spec_example_grid))) = ''CS 102''"
    by code_simp
  ultimately show ?thesis using h by simp
qed

text \<open>
  C4. Date-header priority: a row of at least two cells whose cell 0 holds a weekday or
  month name emits no entry, even when cell 1 is a course code; it sets the current date
  to cell 0 without surrounding whitespace and double quotes, and clears the current
  time.
\<close>

theorem date_header_priority:
  assumes "2 \<le> length r" and "matches_date_word (cleanString (cell_or_empty r 0))"
  shows "processedData (process_row st r) = processedData st \<and>
         currentExamDate (process_row st r) = strip_quotes (js_trim (js_String (r ! 0))) \<and>
         currentExamTime (process_row st r) = []"
  using assms by (simp add: process_row_def)

theorem date_header_priority_witness:
  "processedData (process_row init_scan [Str ''Friday 12'', Str ''CS 101'']) = [] \<and>
   currentExamDate (process_row init_scan [Str ''Friday 12'', Str ''CS 101'']) = ''Friday 12'' \<and>
   course_code_test (cleanString (Str ''CS 101''))"
proof -
  have h: "matches_date_word (cleanString (cell_or_empty [Str ''Friday 12'', Str ''CS 101''] 0))"
    by code_simp
  have "2 \<le> length [Str ''Friday 12'', Str ''CS 101'']" by simp
  from date_header_priority [OF this h, of init_scan]
  have "processedData (process_row init_scan [Str ''Friday 12'', Str ''CS 101'']) = [] \<and>
        currentExamDate (process_row init_scan [Str ''Friday 12'', Str ''CS 101'']) =
          strip_quotes (js_trim (js_String ([Str ''Friday 12'', Str ''CS 101''] ! 0)))"
    by (simp add: init_scan_def)
  moreover have "strip_quotes (js_trim (js_String ([Str ''Friday 12'', Str ''CS 101''] ! 0))) =
      ''Friday 12''" by code_simp
  moreover have "course_code_test (cleanString (Str ''CS 101''))" by code_simp
  ultimately show ?thesis by simp
qed

text \<open>
  C5. Time carry-over (the specification's example): from any state, the rows
  \<open>["9:00 AM","CS 101","A","Intro"]\<close> and \<open>["","CS 102","B","Intro2"]\<close> append two
  entries, both with time \<open>9:00 AM\<close>, and leave \<open>9:00 AM\<close> as the current time.
\<close>

theorem time_carry_over:
  "map time (drop (length (processedData st)) (processedData
     (scan_rows st [[Str ''9:00 AM'', Str ''CS 101'', Str ''A'', Str ''Intro''],
                    [Str '''', Str ''CS 102'', Str ''B'', Str ''Intro2'']]))) =
     [''9:00 AM'', ''9:00 AM''] \<and>
   currentExamTime (scan_rows st [[Str ''9:00 AM'', Str ''CS 101'', Str ''A'', Str ''Intro''],
                    [Str '''', Str ''CS 102'', Str ''B'', Str ''Intro2'']]) = ''9:00 AM''"
proof -
  let ?r1 = "[Str ''9:00 AM'', Str ''CS 101'', Str ''A'', Str ''Intro'']"
  let ?r2 = "[Str '''', Str ''CS 102'', Str ''B'', Str ''Intro2'']"
  have d1: "\<not> matches_date_word (cleanString (cell_or_empty ?r1 0))" by code_simp
  have d2: "\<not> matches_date_word (cleanString (cell_or_empty ?r2 0))" by code_simp
  have c1: "course_code_test (cleanString (Str (cell_text ?r1 1)))" by code_simp
  have c2: "course_code_test (cleanString (Str (cell_text ?r2 1)))" by code_simp
  have t1: "cell_text ?r1 0 = ''9:00 AM''" by code_simp
  have t2: "cell_text ?r2 0 = []" by code_simp
  show ?thesis
    using d1 d2 c1 c2 t1 t2 by (simp add: process_row_def Let_def courseData_def)
qed

text \<open>
  C7. The date of every emitted entry is empty (no date header seen yet) or a text
  that holds a weekday or month name, as the date-header test requires.
\<close>

theorem extract_examDate:
  assumes "e \<in> set (extractExamData g)"
  shows "examDate e = [] \<or> matches_date_word (examDate e)"
  using extract_entry_ok [OF assms] by (simp add: entry_ok_def)

theorem extract_examDate_witness:
  "hd (extractExamData [[Str ''MONDAY'', Str ''x''], [Str ''9'', Str ''CS101'']]) \<in>
     set (extractExamData [[Str ''MONDAY'', Str ''x''], [Str ''9'', Str ''CS101'']]) \<and>
   matches_date_word ''MONDAY''"
proof -
  have h: "hd (extractExamData [[Str ''MONDAY'', Str ''x''], [Str ''9'', Str ''CS101'']]) \<in>
     set (extractExamData [[Str ''MONDAY'', Str ''x''], [Str ''9'', Str ''CS101'']])"
    by code_simp
  have "examDate (hd (extractExamData [[Str ''MONDAY'', Str ''x''], [Str ''9'', Str ''CS101'']])) = ''MONDAY''"
    by code_simp
  with extract_examDate [OF h] h show ?thesis by simp
qed

text \<open>
  C14. The data region starts at most at row 20 and never past the end of the grid.
\<close>

theorem dataStart_bound: "dataStart g \<le> min 20 (length g)"
  using header_scan_bound [of 0 "take 20 g"] by (simp add: dataStart_def)

text \<open>
  C15. The data region starts right after the first header row among the first 20 rows,
  and at row 0 when none of them is a header row.
\<close>

theorem dataStart_first_header:
  "dataStart g =
     (if \<exists>j < min 20 (length g). is_header_row (g ! j)
      then Suc (LEAST j. j < min 20 (length g) \<and> is_header_row (g ! j)) else 0)"
proof -
  have eqP: "(\<lambda>j. j < length (take 20 g) \<and> is_header_row (take 20 g ! j)) =
             (\<lambda>j. j < min 20 (length g) \<and> is_header_row (g ! j))"
    by (rule ext) auto
  have eqE: "(\<exists>j < length (take 20 g). is_header_row (take 20 g ! j)) \<longleftrightarrow>
             (\<exists>j < min 20 (length g). is_header_row (g ! j))"
    by (metis eqP length_take)
  show ?thesis
    unfolding dataStart_def header_scan_least [of 0 "take 20 g"] eqE eqP by auto
qed

text \<open>
  C16. Joining the cells with spaces creates no spurious header match: a row is a header
  row exactly when one of its cells, upper-cased, contains \<open>COURSE\<close> or \<open>TIME\<close>.
\<close>

theorem header_row_cells:
  "is_header_row r \<longleftrightarrow>
     (\<exists>c \<in> set r. js_includes (js_upper (js_String c)) ''COURSE'' \<or>
                 js_includes (js_upper (js_String c)) ''TIME'')"
  by (auto simp: is_header_row_def is_header_row_word)


text \<open>
  C17. Every row of the data region gives at most one entry.
\<close>

theorem extract_length_bound: "length (extractExamData g) \<le> length g - dataStart g"
proof -
  have "length (spec_entries rs) \<le> length rs" for rs
    unfolding spec_entries_def using length_filter_le [of _ "[0..<length rs]"] by simp
  then have "length (spec_entries (drop (dataStart g) g)) \<le> length g - dataStart g"
    by (metis length_drop)
  then show ?thesis
    using scan_rows_spec [of "drop (dataStart g) g"] by (simp add: extractExamData_def)
qed

text \<open>
  C18. The date text is trimmed before the double quotes are removed: for every text
  \<open>s\<close> without double quotes that names a weekday or month, a row whose cell 0 is
  \<open>"s"\<close> sets the current date to \<open>s\<close> exactly, whitespace at its ends included.
\<close>

theorem examDate_keeps_quoted_spaces:
  assumes "CHR 0x22 \<notin> set s" and "matches_date_word s"
    and "2 \<le> length r" and "r ! 0 = Str (CHR 0x22 # s @ [CHR 0x22])"
  shows "currentExamDate (process_row st r) = s"
proof -
  let ?q = "CHR 0x22 # s @ [CHR 0x22]"
  have trim: "js_trim ?q = ?q" by (rule js_trim_id) (simp add: is_js_ws_def)
  from assms(2) obtain w where w: "w \<in> set date_words" "sublist w (js_upper s)"
    by (auto simp: matches_date_word_iff)
  have "sublist w (js_upper ?q)"
    using w(2) by (simp add: sublist_Cons_right sublist_append)
  with w(1) have "matches_date_word ?q" by (auto simp: matches_date_word_iff)
  moreover have cell: "cell_or_empty r 0 = Str ?q" using assms(3,4) by (auto simp: cell_or_empty_def)
  ultimately have date: "matches_date_word (cleanString (cell_or_empty r 0))"
    by (simp only: cell cleanString.simps trim matches_date_word_upper)
  have "strip_quotes ?q = s"
    using assms(1) by (auto simp: strip_quotes_def intro: filter_True)
  with date assms(3,4) trim show ?thesis by (simp add: process_row_def)
qed

theorem examDate_keeps_quoted_spaces_witness:
  "currentExamDate (process_row init_scan [Str (CHR 0x22 # '' MONDAY '' @ [CHR 0x22]), Str ''x'']) =
   '' MONDAY ''"
proof (rule examDate_keeps_quoted_spaces)
  show "matches_date_word '' MONDAY ''" by code_simp
qed simp_all

text \<open>
  C6. A blank time cell takes the carried time whatever JavaScript value makes it blank:
  for every falsy cell 0 (the empty string, the number 0 that SheetJS gives for a
  midnight time, \<open>NaN\<close>, \<open>false\<close>) and every course code in cell 1, the row appends
  one entry with the current time and leaves the current time as it is.
\<close>

theorem falsy_time_cell_carried:
  assumes "js_falsy c" and "course_code_test (cleanString (Str (js_trim s)))"
  shows "process_row st (c # Str s # cs) =
           st\<lparr>processedData := processedData st @
              [courseData (currentExamDate st) (currentExamTime st) (js_trim s) (c # Str s # cs)]\<rparr>"
proof -
  have "s \<noteq> []" using assms(2) by auto
  then show ?thesis
    using assms by (simp add: process_row_def Let_def cell_text_def cell_or_empty_def)
qed

theorem falsy_time_cell_carried_witness:
  "process_row \<lparr>processedData = [], currentExamDate = ''MONDAY'', currentExamTime = ''9:00''\<rparr>
     [Num ''0'', Str ''CS 101''] =
   \<lparr>processedData = [courseData ''MONDAY'' ''9:00'' ''CS 101'' [Num ''0'', Str ''CS 101'']],
    currentExamDate = ''MONDAY'', currentExamTime = ''9:00''\<rparr>"
proof -
  have "course_code_test (cleanString (Str (js_trim ''CS 101'')))" by code_simp
  moreover have "js_trim ''CS 101'' = ''CS 101''" by code_simp
  ultimately show ?thesis using falsy_time_cell_carried [of "Num ''0''" "''CS 101''"] by simp
qed

text \<open>
  C11. A row of fewer than two cells is skipped even when it is a date header: once the
  header row has been found in the leading rows \<open>g1\<close>, inserting such a row after them
  leaves the extracted entries unchanged. The specification's one-cell date row
  \<open>["MONDAY, JAN 5"]\<close> therefore sets no date.
\<close>

theorem short_row_ignored:
  assumes "length r < 2" and "0 < dataStart g1"
  shows "extractExamData (g1 @ r # g2) = extractExamData (g1 @ g2)"
proof -
  have d1: "dataStart (g1 @ r # g2) = dataStart g1" and d2: "dataStart (g1 @ g2) = dataStart g1"
    and le: "dataStart g1 \<le> length g1"
    using dataStart_append [OF assms(2), of "r # g2"] dataStart_append [OF assms(2), of g2]
    by simp_all
  have "process_row st r = st" for st using assms(1) by (simp add: process_row_def)
  with le show ?thesis
    by (simp add: extractExamData_def d1 d2 scan_rows_append)
qed

theorem short_row_ignored_witness:
  "extractExamData spec_example_grid =
     extractExamData [[Str ''Header'', Str ''Time'', Str ''Course'', Str ''Section'', Str ''Title''],
      [Str ''9:00 AM'', Str ''CS 101'', Str ''001'', Str ''Intro to CS''],
      [Str '''', Str ''CS 102'', Str ''002'', Str ''Data Structures'']]"
proof -
  have "0 < dataStart [[Str ''Header'', Str ''Time'', Str ''Course'', Str ''Section'', Str ''Title'']]"
    by code_simp
  from short_row_ignored [OF _ this, of "[Str ''MONDAY, JAN 5'']"
    "[[Str ''9:00 AM'', Str ''CS 101'', Str ''001'', Str ''Intro to CS''],
      [Str '''', Str ''CS 102'', Str ''002'', Str ''Data Structures'']]"]
  show ?thesis by (simp add: spec_example_grid_def)
qed

end
