(* ===== verification/Search_Index.thy ===== *)
theory Search_Index
  imports Exam_Extractor
begin

text \<open>
  \<open>searchExams\<close> of \<open>src/js/search.js\<close> (lines 66--83) over the stored entries
  \<open>examsData\<close>. The DOM call \<open>displayResults(results, message)\<close> that ends every path
  is modelled by returning the pair of its arguments; the page state it writes is the
  business of \<open>App_State\<close>. An empty input gives the prompt message; otherwise the query
  is normalised like the course codes (\<open>searchable\<close>) and the entries whose key starts
  with it, or equals it, are kept in their stored order.
\<close>

section \<open>The search\<close>

text \<open>The filter predicate of lines 74--76.\<close>

definition exam_matches :: "string \<Rightarrow> exam_entry \<Rightarrow> bool" where
  "exam_matches cleanedQuery exam \<longleftrightarrow>
     js_starts_with (searchableCode exam) cleanedQuery \<or> searchableCode exam = cleanedQuery"

definition empty_query_message :: string where
  "empty_query_message = ''Please enter a course code.''"

text \<open>\<open>`No exams found for "${rawQuery}".`\<close>: the query as typed, not normalised.\<close>

definition no_results_message :: "string \<Rightarrow> string" where
  "no_results_message rawQuery =
     ''No exams found for '' @ [CHR 0x22] @ rawQuery @ [CHR 0x22] @ ''.''"

text \<open>
  The input's \<open>value\<close> is a string, so \<open>!rawQuery\<close> holds exactly for the empty one.
  \<open>displayResults(filteredResults)\<close> passes the default message \<open>''\<close>.
\<close>

definition searchExams :: "exam_entry list \<Rightarrow> string \<Rightarrow> exam_entry list \<times> string" where
  "searchExams examsData rawQuery =
     (if rawQuery = [] then ([], empty_query_message)
      else
        (let cleanedQuery = searchable rawQuery;
             filteredResults = filter (exam_matches cleanedQuery) examsData
         in if filteredResults \<noteq> [] then (filteredResults, [])
            else ([], no_results_message rawQuery)))"

section \<open>Lemmas\<close>

lemma exam_matches_prefix: "exam_matches k = (\<lambda>e. prefix k (searchableCode e))"
  by (auto simp: exam_matches_def js_string)

lemma searchExams_nonempty:
  "rawQuery \<noteq> [] \<Longrightarrow>
   fst (searchExams es rawQuery) = filter (\<lambda>e. prefix (searchable rawQuery) (searchableCode e)) es"
  by (auto simp: searchExams_def Let_def exam_matches_prefix filter_empty_conv)

lemma searchable_ws_only: "list_all is_js_ws q \<Longrightarrow> searchable q = []"
  by (simp add: searchable_filter list_all_iff)

section \<open>Properties of the search\<close>

text \<open>
  C8. On a non-empty query \<open>searchExams\<close> shows the stored entries whose key starts
  with the normalised query, with no message, or, when there is none, no entry and the
  message naming the query as typed.
\<close>

theorem search_nonempty_query:
  assumes "rawQuery \<noteq> []"
  shows "searchExams es rawQuery =
    (let R = filter (\<lambda>e. prefix (searchable rawQuery) (searchableCode e)) es
     in if R = [] then ([], no_results_message rawQuery) else (R, []))"
  using assms by (simp add: searchExams_def Let_def exam_matches_prefix)

theorem search_nonempty_query_witness:
  "searchExams [courseData [] [] ''CS 101'' []] ''cs2'' = ([], no_results_message ''cs2'')"
proof -
  have "searchExams [courseData [] [] ''CS 101'' []] ''cs2'' =
    (let R = filter (\<lambda>e. prefix (searchable ''cs2'') (searchableCode e)) [courseData [] [] ''CS 101'' []]
     in if R = [] then ([], no_results_message ''cs2'') else (R, []))"
    by (rule search_nonempty_query) simp
  also have "\<dots> = ([], no_results_message ''cs2'')" by code_simp
  finally show ?thesis .
qed


text \<open>
  C9. The prompt \<open>Please enter a course code.\<close> with no results is shown exactly
  when the query is empty; it is not an error.
\<close>

theorem search_empty_query:
  "searchExams es rawQuery = ([], empty_query_message) \<longleftrightarrow> rawQuery = []"
  by (auto simp: searchExams_def Let_def empty_query_message_def no_results_message_def
      split: if_splits)

text \<open>
  C10. A query of whitespace only is not empty, normalises to the empty key, and so
  returns every stored entry (the specification treats only the empty query specially).
\<close>

theorem search_whitespace_query:
  assumes "rawQuery \<noteq> []" and "list_all is_js_ws rawQuery" and "es \<noteq> []"
  shows "searchExams es rawQuery = (es, [])"
  using assms by (simp add: search_nonempty_query searchable_ws_only Let_def)

theorem search_whitespace_query_witness:
  "searchExams [courseData [] [] ''CS 101'' []] ''  '' = ([courseData [] [] ''CS 101'' []], [])"
proof -
  have "''  '' \<noteq> []" "list_all is_js_ws ''  ''" "[courseData [] [] ''CS 101'' []] \<noteq> []"
    by (simp_all add: is_js_ws_def)
  then show ?thesis by (rule search_whitespace_query)
qed

end
