(* ===== verification/File_Parse.thy ===== *)
theory File_Parse
  imports Prelude
begin

text \<open>
  The decoding half of \<open>src/js/parse.js\<close> (lines 17--66). \<open>parseFile\<close> picks a
  decoder from the lower-cased file name or reports an unsupported format through its
  error callback. \<open>parseCSVFile\<close> splits the text read by the \<open>FileReader\<close> into
  lines and cells; its callback is asynchronous and is modelled as an event of the page
  (\<open>App_State\<close>). \<open>parseExcelFile\<close> hands the bytes to SheetJS, which is not part of
  the repository: its outcome (a grid or a thrown error message) is taken as given.
\<close>

section \<open>Choosing the decoder\<close>

datatype decoder = ExcelDecoder | CsvDecoder

definition unsupported_message :: string where
  "unsupported_message = ''Unsupported file format. Please upload .xlsx or .csv''"

text \<open>\<open>parseFile\<close>: \<open>Inl\<close> is the message passed to \<open>onError\<close>.\<close>

definition parseFile :: "string \<Rightarrow> string + decoder" where
  "parseFile name =
     (let fileName = js_lower name in
      if js_ends_with fileName ''.xlsx'' \<or> js_ends_with fileName ''.xls'' then Inr ExcelDecoder
      else if js_ends_with fileName ''.csv'' then Inr CsvDecoder
      else Inl unsupported_message)"

section \<open>The CSV decoder\<close>

text \<open>
  \<open>cell.trim().replace(/^"|"$/g, '')\<close>: one leading and one trailing double quote are
  removed; a lone \<open>"\<close> is matched once, by the first alternative.
\<close>

definition strip_quote_ends :: "string \<Rightarrow> string" where
  "strip_quote_ends s =
     (let s1 = (if s \<noteq> [] \<and> hd s = CHR 0x22 then tl s else s)
      in if s1 \<noteq> [] \<and> last s1 = CHR 0x22 then butlast s1 else s1)"

text \<open>The body of \<open>reader.onload\<close> (lines 56--58): lines, then comma-separated cells.\<close>

definition parseCSVText :: "string \<Rightarrow> grid" where
  "parseCSVText text =
     map (\<lambda>line. map (\<lambda>cell. Str (strip_quote_ends (js_trim cell))) (js_split CHR '','' line))
       (js_split (CHR 0x0A) text)"

text \<open>
  The outcome of \<open>parseExcelFile\<close>: \<open>sheet_to_json\<close> of the first sheet, or the
  message of the error SheetJS threw, reported as \<open>Error parsing file: ...\<close>.
\<close>

definition parse_error_message :: "string \<Rightarrow> string" where
  "parse_error_message msg = ''Error parsing file: '' @ msg"

definition parseExcelResult :: "string + grid \<Rightarrow> string + grid" where
  "parseExcelResult sheet = (case sheet of Inl msg \<Rightarrow> Inl (parse_error_message msg) | Inr g \<Rightarrow> Inr g)"

section \<open>Lemmas\<close>

lemma set_strip_quote_ends: "set (strip_quote_ends s) \<subseteq> set s"
  unfolding strip_quote_ends_def Let_def
  by (auto simp: list.set_sel(2) dest: in_set_butlastD split: if_splits)

lemma csv_suffixes_distinct:
  "\<not> (suffix ''.csv'' s \<and> suffix ''.xls'' s)" "\<not> (suffix ''.csv'' s \<and> suffix ''.xlsx'' s)"
  by (auto simp: suffix_def)

lemma quote_not_ws [simp]: "\<not> is_js_ws (CHR 0x22)"
  by (simp add: is_js_ws_def)

lemma js_trim_quote_ends:
  assumes "js_trim a = a"
  shows "js_trim (CHR 0x22 # a) = CHR 0x22 # a" and "js_trim (a @ [CHR 0x22]) = a @ [CHR 0x22]"
  using js_trim_fixed_ends [OF assms] by (auto intro!: js_trim_id simp: hd_append split: if_split_asm)

lemma strip_quote_ends_one:
  assumes "CHR 0x22 \<notin> set a"
  shows "strip_quote_ends (CHR 0x22 # a) = a" and "strip_quote_ends (a @ [CHR 0x22]) = a"
  using assms by (auto simp: strip_quote_ends_def hd_append dest: hd_in_set last_in_set split: if_splits)

section \<open>Properties of the decoders\<close>

text \<open>
  C22. \<open>parseFile\<close> reports the unsupported-format error exactly for names that,
  ignoring case, end in none of \<open>.xlsx\<close>, \<open>.xls\<close>, \<open>.csv\<close>, and picks the CSV decoder
  exactly for names ending in \<open>.csv\<close>.
\<close>

theorem parseFile_dispatch:
  "(parseFile name = Inl unsupported_message \<longleftrightarrow>
      \<not> (suffix ''.xlsx'' (js_lower name) \<or> suffix ''.xls'' (js_lower name) \<or>
         suffix ''.csv'' (js_lower name))) \<and>
   (parseFile name = Inr CsvDecoder \<longleftrightarrow> suffix ''.csv'' (js_lower name))"
  using csv_suffixes_distinct [of "js_lower name"]
  by (auto simp: parseFile_def Let_def js_string)

text \<open>
  C23. The CSV decoder gives one row per line of the text (the number of line feeds plus
  one), and every cell is a string holding neither a comma nor a line feed.
\<close>

theorem parseCSVText_shape:
  "length (parseCSVText t) = count_list t (CHR 0x0A) + 1 \<and>
   list_all (list_all (\<lambda>c. \<exists>s. c = Str s \<and> CHR '','' \<notin> set s \<and> CHR 0x0A \<notin> set s))
     (parseCSVText t)"
proof -
  have cell: "CHR '','' \<notin> set (strip_quote_ends (js_trim cell)) \<and>
        CHR 0x0A \<notin> set (strip_quote_ends (js_trim cell))"
    if line: "CHR 0x0A \<notin> set line" and c: "cell \<in> set (js_split CHR '','' line)" for line cell
  proof -
    have sub: "set (strip_quote_ends (js_trim cell)) \<subseteq> set cell"
      using set_strip_quote_ends [of "js_trim cell"] js_trim_set [of cell] by blast
    have "CHR '','' \<notin> set cell" by (rule js_split_no_sep [OF c])
    moreover have "CHR 0x0A \<notin> set cell" using js_split_set [OF c] line by blast
    ultimately show ?thesis using sub by blast
  qed
  have "list_all (\<lambda>c. \<exists>s. c = Str s \<and> CHR '','' \<notin> set s \<and> CHR 0x0A \<notin> set s)
          (map (\<lambda>cell. Str (strip_quote_ends (js_trim cell))) (js_split CHR '','' line))"
    if "line \<in> set (js_split (CHR 0x0A) t)" for line
    using cell [OF js_split_no_sep [OF that]] by (auto simp: list_all_iff)
  then show ?thesis
    by (simp add: parseCSVText_def js_split_length list_all_iff)
qed

text \<open>
  C24. A quoted field holding a comma is split at that comma: for all texts \<open>a\<close> and
  \<open>b\<close> without surrounding whitespace, commas, line feeds or double quotes, the line
  \<open>"a,b"\<close> (one quoted CSV field) is decoded as the two cells \<open>a\<close> and \<open>b\<close>.
\<close>

theorem csv_quoted_comma_split:
  assumes "js_trim a = a" and "js_trim b = b"
    and "CHR '','' \<notin> set a" and "CHR '','' \<notin> set b"
    and "CHR 0x0A \<notin> set a" and "CHR 0x0A \<notin> set b"
    and "CHR 0x22 \<notin> set a" and "CHR 0x22 \<notin> set b"
  shows "parseCSVText (CHR 0x22 # a @ CHR '','' # b @ [CHR 0x22]) = [[Str a, Str b]]"
proof -
  have "js_split (CHR 0x0A) (CHR 0x22 # a @ CHR '','' # b @ [CHR 0x22]) =
        [CHR 0x22 # a @ CHR '','' # b @ [CHR 0x22]]"
    using assms(5,6) by (intro js_split_no_occ) auto
  moreover have "js_split CHR '','' (CHR 0x22 # a @ CHR '','' # b @ [CHR 0x22]) =
        [CHR 0x22 # a, b @ [CHR 0x22]]"
    using js_split_sep [of "CHR '',''" "CHR 0x22 # a" "b @ [CHR 0x22]"]
      js_split_no_occ [of "CHR '',''" "b @ [CHR 0x22]"] assms(3,4) by simp
  ultimately show ?thesis
    using js_trim_quote_ends [OF assms(1)] js_trim_quote_ends [OF assms(2)]
      strip_quote_ends_one [OF assms(7)] strip_quote_ends_one [OF assms(8)]
    by (simp add: parseCSVText_def)
qed

theorem csv_quoted_comma_split_witness:
  "parseCSVText (CHR 0x22 # ''MONDAY'' @ CHR '','' # ''JAN 5'' @ [CHR 0x22]) =
   [[Str ''MONDAY'', Str ''JAN 5'']]"
proof (rule csv_quoted_comma_split)
  show "js_trim ''MONDAY'' = ''MONDAY''" "js_trim ''JAN 5'' = ''JAN 5''" by code_simp+
qed simp_all

text \<open>
  C25. Quoting round trip: wrapping a text in double quotes and removing the quotes as
  the CSV decoder does gives the text back, whatever quotes the text itself holds.
\<close>

theorem strip_quote_ends_roundtrip: "strip_quote_ends (CHR 0x22 # s @ [CHR 0x22]) = s"
  by (simp add: strip_quote_ends_def)

end
