(* ===== verification/App_State.thy ===== *)
theory App_State
  imports Search_Index File_Parse
begin

text \<open>
  The page logic of \<open>src/js/search.js\<close>: the stored entries \<open>examsData\<close> (line 6) and
  the DOM state the handlers write (status line, file label, visibility of the search and
  result sections, result message and table), with the handlers \<open>handleFileChange\<close>,
  \<open>setUploadStatus\<close>, \<open>processData\<close>, \<open>searchExams\<close>, \<open>handleSearch\<close> and
  \<open>displayResults\<close>. A file read is asynchronous: choosing a file registers a pending
  \<open>FileReader\<close> read, and its \<open>onload\<close> callback runs later, in any order with the
  other events. The page is a step relation over these events, and its invariants are
  proved over the states reachable from a start page.
\<close>

section \<open>State\<close>

text \<open>
  A chosen file: its name, the string \<open>readAsText\<close> yields, and what SheetJS makes of
  its bytes (the message of the error it throws, or the grid of the first sheet).
\<close>

record upload_file =
  fileName :: string
  fileText :: string
  fileSheet :: "string + grid"

text \<open>
  The page: \<open>examsData\<close>, the text and class of \<open>UPLOAD_STATUS\<close>, the text, font
  weight and colour of \<open>FILE_TEXT\<close>, the \<open>hidden\<close> class of \<open>SEARCH_SECTION\<close>, \<open>RESULTS_SECTION\<close>,
  \<open>RESULTS_MESSAGE\<close> and \<open>RESULTS_TABLE\<close>, the text of \<open>RESULTS_MESSAGE\<close>, the
  entries whose rows \<open>RESULTS_BODY\<close> holds, the focus of \<open>COURSE_INPUT\<close>, and the
  reads in flight with the decoder each will run.
\<close>

record page =
  examsData :: "exam_entry list"
  uploadStatus :: string
  uploadStatusClass :: string
  fileLabel :: string
  fileLabelWeight :: string
  fileLabelColor :: string
  searchHidden :: bool
  resultsHidden :: bool
  messageHidden :: bool
  tableHidden :: bool
  resultsMessage :: string
  resultsBody :: "exam_entry list"
  inputFocused :: bool
  pendingReads :: "(decoder \<times> upload_file) list"

text \<open>
  The page as loaded: \<open>examsData = []\<close> (line 6); the markup (not in the repository)
  starts with the search and result sections hidden.
\<close>

definition init_page :: page where
  "init_page =
     \<lparr>examsData = [], uploadStatus = [], uploadStatusClass = [], fileLabel = [],
      fileLabelWeight = [], fileLabelColor = [], searchHidden = True, resultsHidden = True, messageHidden = True, tableHidden = True,
      resultsMessage = [], resultsBody = [], inputFocused = False, pendingReads = []\<rparr>"

section \<open>Handlers\<close>

definition setUploadStatus :: "page \<Rightarrow> string \<Rightarrow> string \<Rightarrow> page" where
  "setUploadStatus p msg className = p\<lparr>uploadStatus := msg, uploadStatusClass := className\<rparr>"

text \<open>The markup of one result row (lines 112--119), fields inserted as they are.\<close>

definition render_row :: "exam_entry \<Rightarrow> string" where
  "render_row exam =
     (let ind = replicate 12 CHR '' ''; q = [CHR 0x22]; nl = [CHR 0x0A] in
      nl @ ind @ ''<td>'' @ examDate exam @ ''</td>'' @
      nl @ ind @ ''<td>'' @ time exam @ ''</td>'' @
      nl @ ind @ ''<td class='' @ q @ ''course-code'' @ q @ ''>'' @ courseCode exam @
        '' <small style='' @ q @ ''color:#999'' @ q @ ''>('' @ sectionId exam @ '')</small></td>'' @
      nl @ ind @ ''<td>'' @ title exam @ ''</td>'' @
      nl @ ind @ ''<td><span class='' @ q @ ''room-tag'' @ q @ ''>'' @ room exam @ ''</span></td>'' @
      nl @ ind @ ''<td>'' @ instructor exam @ ''</td>'' @
      nl @ replicate 8 CHR '' '')"

text \<open>
  \<open>displayResults(results, message)\<close> (lines 97--122): the body is emptied; no
  result shows the message, otherwise the table with one row per result.
\<close>

definition displayResults :: "page \<Rightarrow> exam_entry list \<Rightarrow> string \<Rightarrow> page" where
  "displayResults p results message =
     (let p1 = p\<lparr>resultsBody := []\<rparr> in
      if results = [] then p1\<lparr>tableHidden := True, messageHidden := False, resultsMessage := message\<rparr>
      else p1\<lparr>messageHidden := True, tableHidden := False, resultsBody := results\<rparr>)"

definition success_message :: "nat \<Rightarrow> string" where
  "success_message n = ''Success! Loaded '' @ js_nat_string n @ '' exam entries.''"

definition no_data_message :: string where
  "no_data_message = ''Error: No valid exam data found.''"

text \<open>\<open>processData(rawData)\<close> (lines 48--61).\<close>

definition processData :: "page \<Rightarrow> grid \<Rightarrow> page" where
  "processData p rawData =
     (let p1 = p\<lparr>examsData := extractExamData rawData\<rparr> in
      if examsData p1 \<noteq> [] then
        (setUploadStatus p1 (success_message (length (examsData p1))) ''status-success'')
          \<lparr>searchHidden := False, resultsHidden := False, inputFocused := True,
           resultsMessage := ''Enter a course code to start searching.'',
           tableHidden := True, messageHidden := False\<rparr>
      else setUploadStatus p1 no_data_message ''status-error'')"

text \<open>
  \<open>handleFileChange(event)\<close> (lines 21--35) with \<open>event.target.files[0]\<close>: the
  label and the loading status are set; \<open>parseFile\<close> either reports an unsupported
  format at once or starts a read whose callback comes later.
\<close>

definition handleFileChange :: "page \<Rightarrow> upload_file option \<Rightarrow> page" where
  "handleFileChange p file =
     (case file of
        None \<Rightarrow> p
      | Some f \<Rightarrow>
          (let p1 = setUploadStatus
                 (p\<lparr>fileLabel := fileName f, fileLabelWeight := ''bold'', fileLabelColor := ''#4f46e5''\<rparr>)
                 ''Parsing file...'' ''status-loading''
           in case parseFile (fileName f) of
                Inl msg \<Rightarrow> setUploadStatus p1 msg ''status-error''
              | Inr d \<Rightarrow> p1\<lparr>pendingReads := pendingReads p1 @ [(d, f)]\<rparr>))"

text \<open>
  The \<open>onload\<close> callback of the \<open>i\<close>-th read in flight (lines 33--45, 54--64): the
  read leaves the list; the CSV text is decoded (that code cannot throw), the sheet is
  decoded or its error reported; a grid goes to \<open>processData\<close>.
\<close>

definition read_complete :: "page \<Rightarrow> nat \<Rightarrow> page" where
  "read_complete p i =
     (let (d, f) = pendingReads p ! i;
          p1 = p\<lparr>pendingReads := take i (pendingReads p) @ drop (Suc i) (pendingReads p)\<rparr>
      in case d of
           CsvDecoder \<Rightarrow> processData p1 (parseCSVText (fileText f))
         | ExcelDecoder \<Rightarrow>
             (case parseExcelResult (fileSheet f) of
                Inl msg \<Rightarrow> setUploadStatus p1 msg ''status-error''
              | Inr g \<Rightarrow> processData p1 g))"

text \<open>\<open>searchExams()\<close> with the input's current value (lines 66--83).\<close>

definition searchExams_page :: "page \<Rightarrow> string \<Rightarrow> page" where
  "searchExams_page p rawQuery =
     (let (results, message) = searchExams (examsData p) rawQuery
      in displayResults p results message)"

text \<open>\<open>handleSearch(event)\<close> (lines 88--92).\<close>

definition handleSearch :: "page \<Rightarrow> string \<Rightarrow> string \<Rightarrow> page" where
  "handleSearch p key rawQuery = (if key = ''Enter'' then searchExams_page p rawQuery else p)"

section \<open>Events and runs\<close>

text \<open>
  The events the page reacts to: a change of the file input, the completion of a read in
  flight, a key press in the course input, and a direct call of \<open>searchExams\<close>.
\<close>

datatype event =
    FileChange "upload_file option"
  | ReadDone nat
  | KeyPress string string
  | SearchCall string

inductive page_step :: "page \<Rightarrow> event \<Rightarrow> page \<Rightarrow> bool" where
  file_change: "page_step p (FileChange f) (handleFileChange p f)"
| read_done: "i < length (pendingReads p) \<Longrightarrow> page_step p (ReadDone i) (read_complete p i)"
| key_press: "page_step p (KeyPress key q) (handleSearch p key q)"
| search_call: "page_step p (SearchCall q) (searchExams_page p q)"

inductive_cases page_stepE: "page_step p e p'"

code_pred page_step .

text \<open>The pages reachable from a start page \<open>p0\<close> by any interleaving of events.\<close>

inductive page_reach :: "page \<Rightarrow> page \<Rightarrow> bool" for p0 :: page where
  reach_start: "page_reach p0 p0"
| reach_step: "page_reach p0 p \<Longrightarrow> page_step p e p' \<Longrightarrow> page_reach p0 p'"

text \<open>A run of a list of events (an event that cannot happen leaves the page as it is).\<close>

fun run_page :: "page \<Rightarrow> event list \<Rightarrow> page" where
  "run_page p [] = p"
| "run_page p (FileChange f # es) = run_page (handleFileChange p f) es"
| "run_page p (ReadDone i # es) =
     run_page (if i < length (pendingReads p) then read_complete p i else p) es"
| "run_page p (KeyPress key q # es) = run_page (handleSearch p key q) es"
| "run_page p (SearchCall q # es) = run_page (searchExams_page p q) es"

text \<open>The result table is shown only with rows, and then the message is hidden.\<close>

definition page_inv :: "page \<Rightarrow> bool" where
  "page_inv p \<longleftrightarrow> (\<not> tableHidden p \<longrightarrow> resultsBody p \<noteq> [] \<and> messageHidden p)"

text \<open>
  The browser runs the \<open>onload\<close> callbacks of the reads in flight as tasks, one at a
  time; \<open>drain_reads\<close> runs them oldest first until none is left. Every callback takes
  its read off the list, which is the measure of the termination proof.
\<close>

function drain_reads :: "page \<Rightarrow> page" where
  "drain_reads p = (if pendingReads p = [] then p else drain_reads (read_complete p 0))"
  by pat_completeness auto
termination
  by (relation "measure (\<lambda>p. length (pendingReads p))")
     (auto simp: read_complete_def processData_def setUploadStatus_def Let_def
       split: prod.split decoder.split sum.split)

declare drain_reads.simps [simp del]

section \<open>Lemmas\<close>

lemma read_complete_pendingReads:
  "pendingReads (read_complete p i) = take i (pendingReads p) @ drop (Suc i) (pendingReads p)"
  by (simp add: read_complete_def processData_def setUploadStatus_def Let_def
      split: prod.split decoder.split sum.split)

lemma read_complete_fileLabel [simp]: "fileLabel (read_complete p i) = fileLabel p"
  by (simp add: read_complete_def processData_def setUploadStatus_def Let_def
      split: prod.split decoder.split sum.split)

lemma read_complete_csv_examsData:
  "pendingReads p ! i = (CsvDecoder, f) \<Longrightarrow>
   examsData (read_complete p i) = extractExamData (parseCSVText (fileText f))"
  by (simp add: read_complete_def processData_def setUploadStatus_def Let_def)

lemma handleFileChange_supported:
  "parseFile (fileName f) = Inr d \<Longrightarrow>
   pendingReads (handleFileChange p (Some f)) = pendingReads p @ [(d, f)] \<and>
   fileLabel (handleFileChange p (Some f)) = fileName f"
  by (simp add: handleFileChange_def setUploadStatus_def)

lemma page_reach_trans: "page_reach q r \<Longrightarrow> page_reach p q \<Longrightarrow> page_reach p r"
  by (induction rule: page_reach.induct) (auto intro: page_reach.reach_step)

lemma drain_reads_run:
  "drain_reads p = run_page p (replicate (length (pendingReads p)) (ReadDone 0))"
proof (induction p rule: drain_reads.induct)
  case (1 p)
  show ?case
  proof (cases "pendingReads p")
    case Nil
    then show ?thesis by (simp add: drain_reads.simps [of p])
  next
    case (Cons x xs)
    then have "length (pendingReads (read_complete p 0)) = length xs"
      by (simp add: read_complete_pendingReads)
    with Cons "1" show ?thesis by (simp add: drain_reads.simps [of p])
  qed
qed

lemma drain_reads_pending: "pendingReads (drain_reads p) = []"
proof (induction p rule: drain_reads.induct)
  case (1 p)
  then show ?case by (cases "pendingReads p = []") (simp_all add: drain_reads.simps [of p])
qed

lemma drain_reads_last:
  "pendingReads p = xs @ [(CsvDecoder, f)] \<Longrightarrow>
   examsData (drain_reads p) = extractExamData (parseCSVText (fileText f)) \<and>
   fileLabel (drain_reads p) = fileLabel p"
proof (induction xs arbitrary: p)
  case Nil
  then have "drain_reads p = read_complete p 0"
    by (simp add: drain_reads.simps [of p] drain_reads.simps [of "read_complete p 0"]
        read_complete_pendingReads)
  with Nil show ?case by (simp add: read_complete_csv_examsData)
next
  case (Cons y ys)
  then have "pendingReads (read_complete p 0) = ys @ [(CsvDecoder, f)]"
    by (simp add: read_complete_pendingReads)
  with Cons.IH [OF this] Cons.prems show ?case by (simp add: drain_reads.simps [of p])
qed

lemma displayResults_inv: "page_inv (displayResults p results message)"
  by (simp add: page_inv_def displayResults_def Let_def)

lemma setUploadStatus_inv [simp]: "page_inv (setUploadStatus p m c) = page_inv p"
  by (simp add: page_inv_def setUploadStatus_def)

lemma processData_inv: "page_inv p \<Longrightarrow> page_inv (processData p g)"
  by (simp add: page_inv_def processData_def Let_def setUploadStatus_def)

lemma handleFileChange_inv: "page_inv p \<Longrightarrow> page_inv (handleFileChange p f)"
  by (auto simp: handleFileChange_def Let_def page_inv_def setUploadStatus_def
      split: option.split sum.split)

lemma read_complete_inv: "page_inv p \<Longrightarrow> page_inv (read_complete p i)"
  by (auto simp: read_complete_def Let_def page_inv_def setUploadStatus_def
      intro!: processData_inv [unfolded page_inv_def]
      split: prod.split decoder.split sum.split)

lemma searchExams_page_inv: "page_inv (searchExams_page p q)"
  by (simp add: searchExams_page_def displayResults_inv split: prod.split)

lemma page_step_inv: "page_step p e p' \<Longrightarrow> page_inv p \<Longrightarrow> page_inv p'"
  by (induction rule: page_step.induct)
     (simp_all add: handleFileChange_inv read_complete_inv searchExams_page_inv handleSearch_def)

lemma run_page_reach: "page_reach p0 p \<Longrightarrow> page_reach p0 (run_page p es)"
proof (induction p es rule: run_page.induct)
  case (1 p)
  then show ?case by simp
next
  case (2 p f es)
  show ?case
    using "2.IH" [OF page_reach.reach_step [OF "2.prems" page_step.file_change]] by simp
next
  case (3 p i es)
  show ?case
  proof (cases "i < length (pendingReads p)")
    case True
    have "page_reach p0 (read_complete p i)"
      by (rule page_reach.reach_step [OF "3.prems" page_step.read_done [OF True]])
    with True show ?thesis using "3.IH" by simp
  next
    case False
    then show ?thesis using "3.IH" "3.prems" by simp
  qed
next
  case (4 p key q es)
  show ?case
    using "4.IH" [OF page_reach.reach_step [OF "4.prems" page_step.key_press]] by simp
next
  case (5 p q es)
  show ?case
    using "5.IH" [OF page_reach.reach_step [OF "5.prems" page_step.search_call]] by simp
qed

lemma count_list_append_many [simp]: "count_list (xs @ ys) c = count_list xs c + count_list ys c"
  by (induction xs) simp_all

section \<open>Properties of the page\<close>

text \<open>
  C26. In every page reachable from a start page where it holds, the result table is
  shown only with at least one row, and then the result message is hidden.
\<close>

theorem page_reach_inv:
  assumes "page_reach p0 p" and "page_inv p0"
  shows "page_inv p"
  using assms by (induction rule: page_reach.induct) (blast intro: page_step_inv)+

theorem page_reach_inv_witness:
  "page_reach init_page (run_page init_page [SearchCall ''CS'']) \<and> page_inv init_page \<and>
   page_inv (run_page init_page [SearchCall ''CS''])"
proof -
  have r: "page_reach init_page (run_page init_page [SearchCall ''CS''])"
    by (rule run_page_reach [OF page_reach.reach_start])
  have i: "page_inv init_page" by (simp add: page_inv_def init_page_def)
  from r i page_reach_inv [OF r i] show ?thesis by simp
qed

text \<open>
  C28. Searching (a key press in the course input, Enter or not) never changes the
  stored entries, the reads in flight, the status line or the visibility of the search
  section.
\<close>

theorem search_frame:
  "examsData (handleSearch p key q) = examsData p \<and>
   pendingReads (handleSearch p key q) = pendingReads p \<and>
   uploadStatus (handleSearch p key q) = uploadStatus p \<and>
   searchHidden (handleSearch p key q) = searchHidden p"
  by (simp add: handleSearch_def searchExams_page_def displayResults_def Let_def split: prod.split)

text \<open>
  C29. When the read of a CSV file completes, the stored entries are replaced wholesale
  by the entries extracted from its text, the read leaves the list of reads in flight, and
  the status reports the number of entries or that no exam data was found.
\<close>

theorem csv_load_replaces:
  assumes "i < length (pendingReads p)" and "pendingReads p ! i = (CsvDecoder, f)"
  shows "examsData (read_complete p i) = extractExamData (parseCSVText (fileText f)) \<and>
         pendingReads (read_complete p i) = take i (pendingReads p) @ drop (Suc i) (pendingReads p) \<and>
         uploadStatus (read_complete p i) =
           (if extractExamData (parseCSVText (fileText f)) = [] then no_data_message
            else success_message (length (extractExamData (parseCSVText (fileText f)))))"
  using assms
  by (simp add: read_complete_def processData_def setUploadStatus_def Let_def)

theorem csv_load_replaces_witness:
  "uploadStatus (read_complete (handleFileChange init_page
     (Some \<lparr>fileName = ''a.csv'', fileText = ''9:00,CS 101'', fileSheet = Inr []\<rparr>)) 0) =
   ''Success! Loaded 1 exam entries.''"
proof -
  let ?p = "handleFileChange init_page
     (Some \<lparr>fileName = ''a.csv'', fileText = ''9:00,CS 101'', fileSheet = Inr []\<rparr>)"
  have l: "0 < length (pendingReads ?p)" by code_simp
  have d: "pendingReads ?p ! 0 =
    (CsvDecoder, \<lparr>fileName = ''a.csv'', fileText = ''9:00,CS 101'', fileSheet = Inr []\<rparr>)"
    by code_simp
  from csv_load_replaces [OF l d]
  have "uploadStatus (read_complete ?p 0) =
    (if extractExamData (parseCSVText ''9:00,CS 101'') = [] then no_data_message
     else success_message (length (extractExamData (parseCSVText ''9:00,CS 101''))))"
    by simp
  also have "\<dots> = ''Success! Loaded 1 exam entries.''" by code_simp
  finally show ?thesis .
qed


text \<open>
  C32. The fields are inserted into the row markup without escaping: the template
  contributes 16 tag openers \<open><\<close>, and every \<open><\<close> of an entry's fields adds one more.
\<close>

theorem render_row_tag_count:
  "count_list (render_row e) CHR ''<'' =
     16 + count_list (examDate e) CHR ''<'' + count_list (time e) CHR ''<'' +
     count_list (courseCode e) CHR ''<'' + count_list (sectionId e) CHR ''<'' +
     count_list (title e) CHR ''<'' + count_list (room e) CHR ''<'' +
     count_list (instructor e) CHR ''<''"
  by (simp add: render_row_def Let_def)

text \<open>
  C33. A key other than Enter changes nothing; Enter with an empty input empties the
  result body, hides the table and shows the prompt.
\<close>

theorem handleSearch_keys:
  "(key \<noteq> ''Enter'' \<longrightarrow> handleSearch p key q = p) \<and>
   handleSearch p ''Enter'' [] =
     p\<lparr>resultsBody := [], tableHidden := True, messageHidden := False,
       resultsMessage := empty_query_message\<rparr>"
  by (simp add: handleSearch_def searchExams_page_def searchExams_def displayResults_def)

theorem handleSearch_keys_witness: "handleSearch init_page ''a'' ''CS'' = init_page"
  using handleSearch_keys [of "''a''" init_page "''CS''"] by simp

text \<open>
  C34. Choosing a file whose name has no supported extension sets the label to its name
  (in bold, coloured) and reports the unsupported-format error; no read starts and nothing else changes.
\<close>

theorem unsupported_file:
  assumes "parseFile (fileName f) = Inl msg"
  shows "msg = unsupported_message \<and>
         handleFileChange p (Some f) =
           p\<lparr>fileLabel := fileName f, fileLabelWeight := ''bold'', fileLabelColor := ''#4f46e5'',
             uploadStatus := msg, uploadStatusClass := ''status-error''\<rparr>"
  using assms
  by (auto simp: handleFileChange_def setUploadStatus_def parseFile_def Let_def split: if_splits)

theorem unsupported_file_witness:
  "handleFileChange init_page (Some \<lparr>fileName = ''notes.txt'', fileText = [], fileSheet = Inr []\<rparr>) =
     init_page\<lparr>fileLabel := ''notes.txt'', fileLabelWeight := ''bold'', fileLabelColor := ''#4f46e5'',
               uploadStatus := unsupported_message, uploadStatusClass := ''status-error''\<rparr>"
proof -
  have "parseFile (fileName \<lparr>fileName = ''notes.txt'', fileText = [], fileSheet = Inr []\<rparr>) =
        Inl unsupported_message" by code_simp
  from unsupported_file [OF this, of init_page] show ?thesis by simp
qed

text \<open>
  C36. Choosing a file never changes the stored entries, the search section or the
  shown results: while the file is being read the previous entries stay searchable.
\<close>

theorem file_change_keeps_search:
  "examsData (handleFileChange p f) = examsData p \<and>
   searchHidden (handleFileChange p f) = searchHidden p \<and>
   resultsBody (handleFileChange p f) = resultsBody p"
  by (simp add: handleFileChange_def setUploadStatus_def Let_def split: option.split sum.split)


text \<open>
  C27. A load is always possible: from every reachable page, choosing a CSV file leads,
  once the reads in flight have completed in the order they started, to a page with no
  read in flight whose label names the file and whose stored entries are those of the file.
\<close>

theorem file_load_eventually:
  fixes f :: upload_file
  assumes "page_reach p0 p" and "parseFile (fileName f) = Inr CsvDecoder"
  shows "\<exists>q. page_reach p0 q \<and> pendingReads q = [] \<and> fileLabel q = fileName f \<and>
             examsData q = extractExamData (parseCSVText (fileText f))"
proof -
  let ?p1 = "handleFileChange p (Some f)"
  have r1: "page_reach p0 ?p1"
    using assms(1) page_step.file_change by (rule page_reach.reach_step)
  have r2: "page_reach p0 (drain_reads ?p1)"
    using drain_reads_run [of ?p1] page_reach_trans [OF run_page_reach [OF page_reach.reach_start] r1]
    by metis
  from handleFileChange_supported [OF assms(2), of p] drain_reads_last [of ?p1 "pendingReads p" f]
  have "examsData (drain_reads ?p1) = extractExamData (parseCSVText (fileText f)) \<and>
        fileLabel (drain_reads ?p1) = fileName f" by simp
  with r2 drain_reads_pending [of ?p1] show ?thesis by blast
qed

theorem file_load_eventually_witness:
  "\<exists>q. page_reach init_page q \<and> pendingReads q = [] \<and> fileLabel q = ''a.csv'' \<and>
       examsData q = extractExamData (parseCSVText ''9:00,CS 101'')"
proof -
  have "parseFile (fileName \<lparr>fileName = ''a.csv'', fileText = ''9:00,CS 101'', fileSheet = Inr []\<rparr>) =
        Inr CsvDecoder" by code_simp
  from file_load_eventually [OF page_reach.reach_start this] show ?thesis by simp
qed

text \<open>
  C35. When SheetJS throws on an Excel file, its read completes with the status
  \<open>Error parsing file: \<close> and the message, the read leaves the list, and nothing else
  changes: the previous entries stay stored and shown.
\<close>

theorem excel_error_status:
  assumes "pendingReads p ! i = (ExcelDecoder, f)" and "fileSheet f = Inl msg"
  shows "read_complete p i =
           p\<lparr>pendingReads := take i (pendingReads p) @ drop (Suc i) (pendingReads p),
             uploadStatus := ''Error parsing file: '' @ msg, uploadStatusClass := ''status-error''\<rparr>"
  using assms
  by (simp add: read_complete_def parseExcelResult_def parse_error_message_def setUploadStatus_def)

theorem excel_error_status_witness:
  "read_complete (handleFileChange init_page
     (Some \<lparr>fileName = ''t.XLSX'', fileText = [], fileSheet = Inl ''Unsupported file''\<rparr>)) 0 =
   init_page\<lparr>fileLabel := ''t.XLSX'', fileLabelWeight := ''bold'', fileLabelColor := ''#4f46e5'',
     uploadStatus := ''Error parsing file: Unsupported file'', uploadStatusClass := ''status-error''\<rparr>"
proof -
  let ?f = "\<lparr>fileName = ''t.XLSX'', fileText = [], fileSheet = Inl ''Unsupported file''\<rparr>"
  let ?p = "handleFileChange init_page (Some ?f)"
  have d: "pendingReads ?p ! 0 = (ExcelDecoder, ?f)" by code_simp
  have "fileSheet ?f = Inl ''Unsupported file''" by simp
  moreover have "parseFile ''t.XLSX'' = Inr ExcelDecoder" by code_simp
  ultimately show ?thesis using excel_error_status [OF d]
    by (simp add: handleFileChange_def setUploadStatus_def init_page_def)
qed

text \<open>
  C30. Stale results: when the read of a CSV file without exam entries completes, the
  stored entries become empty and the status reports that no data was found, but the
  result table, the message and the rows shown stay as they were. After a search that
  showed rows, the page keeps showing entries that are no longer stored.
\<close>

theorem stale_rows_after_empty_load:
  assumes "pendingReads p ! i = (CsvDecoder, f)"
    and "extractExamData (parseCSVText (fileText f)) = []"
  shows "examsData (read_complete p i) = [] \<and>
         uploadStatus (read_complete p i) = no_data_message \<and>
         tableHidden (read_complete p i) = tableHidden p \<and>
         messageHidden (read_complete p i) = messageHidden p \<and>
         resultsBody (read_complete p i) = resultsBody p"
  using assms by (simp add: read_complete_def processData_def setUploadStatus_def Let_def)

theorem stale_rows_after_empty_load_witness:
  "page_reach init_page (run_page init_page
     [FileChange (Some \<lparr>fileName = ''a.csv'', fileText = ''9:00,CS 101'', fileSheet = Inr []\<rparr>),
      ReadDone 0, SearchCall ''CS'',
      FileChange (Some \<lparr>fileName = ''b.csv'', fileText = ''no,data'', fileSheet = Inr []\<rparr>)]) \<and>
   examsData (read_complete (run_page init_page
     [FileChange (Some \<lparr>fileName = ''a.csv'', fileText = ''9:00,CS 101'', fileSheet = Inr []\<rparr>),
      ReadDone 0, SearchCall ''CS'',
      FileChange (Some \<lparr>fileName = ''b.csv'', fileText = ''no,data'', fileSheet = Inr []\<rparr>)]) 0) = [] \<and>
   \<not> tableHidden (read_complete (run_page init_page
     [FileChange (Some \<lparr>fileName = ''a.csv'', fileText = ''9:00,CS 101'', fileSheet = Inr []\<rparr>),
      ReadDone 0, SearchCall ''CS'',
      FileChange (Some \<lparr>fileName = ''b.csv'', fileText = ''no,data'', fileSheet = Inr []\<rparr>)]) 0) \<and>
   resultsBody (read_complete (run_page init_page
     [FileChange (Some \<lparr>fileName = ''a.csv'', fileText = ''9:00,CS 101'', fileSheet = Inr []\<rparr>),
      ReadDone 0, SearchCall ''CS'',
      FileChange (Some \<lparr>fileName = ''b.csv'', fileText = ''no,data'', fileSheet = Inr []\<rparr>)]) 0) \<noteq> []"
proof -
  let ?f = "\<lparr>fileName = ''b.csv'', fileText = ''no,data'', fileSheet = Inr []\<rparr>"
  let ?p = "run_page init_page
     [FileChange (Some \<lparr>fileName = ''a.csv'', fileText = ''9:00,CS 101'', fileSheet = Inr []\<rparr>),
      ReadDone 0, SearchCall ''CS'', FileChange (Some ?f)]"
  have r: "page_reach init_page ?p" by (rule run_page_reach [OF page_reach.reach_start])
  have d: "pendingReads ?p ! 0 = (CsvDecoder, ?f)" by code_simp
  have e: "extractExamData (parseCSVText (fileText ?f)) = []" by code_simp
  have shown: "\<not> tableHidden ?p \<and> resultsBody ?p \<noteq> []" by code_simp
  from stale_rows_after_empty_load [OF d e] r shown show ?thesis by simp
qed

text \<open>
  C31. Loads race: on every page, when two CSV files are chosen one after the other and
  the read of the second completes before the read of the first, the label names the
  second file while the stored entries are those of the first, and no read of the two is
  left in flight.
\<close>

theorem load_race:
  fixes f1 f2 :: upload_file
  assumes "parseFile (fileName f1) = Inr CsvDecoder" and "parseFile (fileName f2) = Inr CsvDecoder"
  shows "let n = length (pendingReads p);
             q = run_page p [FileChange (Some f1), FileChange (Some f2), ReadDone (Suc n), ReadDone n]
         in fileLabel q = fileName f2 \<and>
            examsData q = extractExamData (parseCSVText (fileText f1)) \<and>
            pendingReads q = pendingReads p"
proof -
  let ?n = "length (pendingReads p)"
  let ?p2 = "handleFileChange (handleFileChange p (Some f1)) (Some f2)"
  have p2: "pendingReads ?p2 = pendingReads p @ [(CsvDecoder, f1), (CsvDecoder, f2)] \<and>
            fileLabel ?p2 = fileName f2"
    using handleFileChange_supported [OF assms(1), of p]
      handleFileChange_supported [OF assms(2), of "handleFileChange p (Some f1)"] by simp
  let ?p3 = "read_complete ?p2 (Suc ?n)"
  have p3: "pendingReads ?p3 = pendingReads p @ [(CsvDecoder, f1)] \<and> fileLabel ?p3 = fileName f2"
    using p2 by (simp add: read_complete_pendingReads)
  let ?p4 = "read_complete ?p3 ?n"
  have "examsData ?p4 = extractExamData (parseCSVText (fileText f1))"
    using p3 by (simp add: read_complete_csv_examsData)
  moreover have "pendingReads ?p4 = pendingReads p \<and> fileLabel ?p4 = fileName f2"
    using p3 by (simp add: read_complete_pendingReads)
  ultimately show ?thesis using p2 p3 by (simp add: Let_def)
qed

theorem load_race_witness:
  "fileLabel (run_page init_page
     [FileChange (Some \<lparr>fileName = ''a.csv'', fileText = ''9:00,CS 101'', fileSheet = Inr []\<rparr>),
      FileChange (Some \<lparr>fileName = ''b.csv'', fileText = ''9:00,MATH 200'', fileSheet = Inr []\<rparr>),
      ReadDone 1, ReadDone 0]) = ''b.csv'' \<and>
   examsData (run_page init_page
     [FileChange (Some \<lparr>fileName = ''a.csv'', fileText = ''9:00,CS 101'', fileSheet = Inr []\<rparr>),
      FileChange (Some \<lparr>fileName = ''b.csv'', fileText = ''9:00,MATH 200'', fileSheet = Inr []\<rparr>),
      ReadDone 1, ReadDone 0]) = extractExamData (parseCSVText ''9:00,CS 101'')"
proof -
  have "parseFile ''a.csv'' = Inr CsvDecoder" "parseFile ''b.csv'' = Inr CsvDecoder" by code_simp+
  from load_race [of "\<lparr>fileName = ''a.csv'', fileText = ''9:00,CS 101'', fileSheet = Inr []\<rparr>"
      "\<lparr>fileName = ''b.csv'', fileText = ''9:00,MATH 200'', fileSheet = Inr []\<rparr>" init_page] this
  show ?thesis by (simp add: init_page_def Let_def)
qed

end
