(* ===== verification/Spec2Isabelle.thy ===== *)
theory Spec2Isabelle
  imports App_State
begin

text \<open>
  \<^bold>\<open>CheckMyFinals: a verification development of the timetable extractor and search.\<close>

  \<^bold>\<open>The program.\<close> \<open>src/js/parse.js\<close> decodes an uploaded timetable (CSV text, or an
  Excel sheet through the SheetJS library) into a grid of rows of cells, and
  \<open>extractExamData\<close> scans the grid once, top to bottom: it finds a header row among the
  first 20 rows, then classifies each later row as a date header (cell 0 names a weekday
  or month), a course row (cell 1 starts with a course code) or noise, carrying the
  current date and time from row to row, and emits one exam entry per course row.
  \<open>src/js/search.js\<close> stores the entries of the last load in \<open>examsData\<close>, answers
  prefix queries on the normalised course code, and drives the page: the status line,
  the file label, the search and result sections, the result message and table. File
  reads are asynchronous (\<open>FileReader\<close>): their callbacks run after the handler that
  started them, interleaved with other events.

  \<^bold>\<open>Theories and what they model.\<close>
  \<^item> \<open>Prelude\<close>: the JavaScript values of the grid (\<open>cell\<close>: a string, a number
    with its \<open>String(...)\<close> rendering, or a boolean; \<open>row\<close>, \<open>grid\<close>), ToBoolean and
    \<open>row[i] || ''\<close> (\<open>cell_or_empty\<close>), and the ECMAScript string operations the
    code calls: \<open>trim\<close>, \<open>toUpperCase\<close>, \<open>toLowerCase\<close>, \<open>startsWith\<close>,
    \<open>endsWith\<close>, \<open>includes\<close>, \<open>join\<close>, \<open>split\<close>, \<open>replace(/\s+/g, r)\<close>,
    \<open>String(n)\<close>; with the shared lemmas (the \<open>js_string\<close> collection): the operations
    against \<open>prefix\<close>, \<open>suffix\<close> and \<open>sublist\<close>, idempotence of trimming and
    upper-casing, the split/join round trip.
  \<^item> \<open>Parse_Patterns\<close> (parse.js 9--12, 101, 109--112, 133): \<open>cleanString\<close>, the date
    pattern \<open>matches_date_word\<close>, the course-code pattern as a backtracking matcher
    (\<open>match_letters\<close>, \<open>match_ws_digits\<close>, \<open>match_digits\<close>, \<open>course_code_test\<close>) with
    the language it denotes (\<open>course_code_lang\<close>), and the search key \<open>searchable\<close>.
  \<^item> \<open>Exam_Extractor\<close> (parse.js 71--143): the records \<open>exam_entry\<close> (the object
    literal, \<open>section\<close> renamed \<open>sectionId\<close>) and \<open>scan_state\<close> (the loop's locals
    \<open>processedData\<close>, \<open>currentExamDate\<close>, \<open>currentExamTime\<close>); \<open>dataStart\<close> and
    \<open>header_scan\<close> (the header search); \<open>process_row\<close> (the loop body, every branch and
    \<open>continue\<close>), \<open>scan_rows\<close> (the loop), \<open>extractExamData\<close>. The loop body is also
    the inductive relation \<open>scan_step\<close> (one rule per branch) with reachable states
    \<open>scan_reachable\<close>; \<open>scan_inv\<close> is proved of them by rule induction. A stateless
    description (\<open>spec_entries\<close>: the last date header above a row, the last non-empty
    time of its block) is proved equal to the scan by induction over the rows from the end.
  \<^item> \<open>Search_Index\<close> (search.js 66--83): \<open>searchExams\<close>, returning the two arguments
    it passes to \<open>displayResults\<close> (the results, the message).
  \<^item> \<open>File_Parse\<close> (parse.js 17--66): \<open>parseFile\<close> (the decoder chosen from the file
    name, or the error message), \<open>parseCSVText\<close> (the CSV callback's body) with
    \<open>strip_quote_ends\<close>, and \<open>parseExcelResult\<close> for the Excel callback.
  \<^item> \<open>App_State\<close> (search.js 6--121 and the reader callbacks of parse.js): the record
    \<open>page\<close> (\<open>examsData\<close> and every DOM property the handlers write, plus the reads in
    flight), the handlers \<open>handleFileChange\<close>, \<open>setUploadStatus\<close>, \<open>processData\<close>,
    \<open>searchExams_page\<close>, \<open>handleSearch\<close>, \<open>displayResults\<close>, \<open>render_row\<close>, and
    \<open>read_complete\<close> (a read's \<open>onload\<close>). The events form the inductive relation
    \<open>page_step\<close>; \<open>page_reach\<close> is every interleaving from a start page, and
    \<open>run_page\<close> runs a given list of events. \<open>drain_reads\<close> runs the callbacks of
    all reads in flight, oldest first, as the browser's task queue does.

  \<^bold>\<open>What is proved.\<close> Extractor: the search key of every entry is a function of its
  course code (C1); the scan equals the stateless description, so entries come in row
  order with the right date and carried time (C2); no entry without a course code (C3);
  date headers take priority and clear the time (C4); the spec's carry-over example
  (C5); every falsy time cell (an Excel midnight 0, \<open>false\<close>) takes the carried time
  (C6); dates are empty or date texts (C7); rows of fewer than two cells, date headers
  included, never affect the output, so the spec's one-cell date row sets no date (C11);
  the header search's bound and meaning (C14, C15, C16); at most one entry per row
  (C17); a quoted date header keeps the whitespace inside its quotes (C18).
  Search: the result on every branch (C8, C9), whitespace-only queries (C10).
  Across components: every entry is found by its own code (C12), a query finds exactly
  the entries whose normalised code it prefixes (C13).
  Patterns: the matcher decides the expression's language (C19), the key is a normal
  form (C20), the pattern is anchored only at the start (C21). Decoders: the dispatch
  (C22), the shape of the CSV grid (C23), a quoted field is split at its comma (C24),
  the quote round trip (C25). Page: an invariant of every reachable page (C26), every
  chosen CSV file can be loaded (C27), searches change no data (C28), a load replaces
  the data (C29), stale rows after an empty load (C30), the race between two loads
  (C31), unescaped row markup (C32), key handling (C33), unsupported files (C34),
  SheetJS errors (C35), the old data stays searchable during a load (C36).

  \<^bold>\<open>Bounds and loops.\<close> Every loop of the code runs over a finite list and is a
  structural recursion (\<open>header_scan\<close>, \<open>scan_rows\<close>, \<open>js_split\<close>, the matchers) or a
  \<open>fun\<close> with an automatic termination proof (\<open>js_nat_string\<close>); no fuel is needed.
  The header search's window of 20 rows is the code's constant, kept as \<open>take 20\<close>.
  Asynchrony is not bounded: any number of reads may be in flight, completing in any
  order; \<open>drain_reads\<close> (the browser running the pending callbacks) terminates by the
  measure \<open>length pendingReads\<close>, which every callback decreases.

  \<^bold>\<open>Not modelled.\<close> Characters are ASCII code units: whitespace is TAB, LF, VT, FF, CR
  and SPACE, case mapping covers \<open>a\<close>..\<open>z\<close> only; non-ASCII text (where
  \<open>toUpperCase\<close> can change a string's length) is not covered. SheetJS (\<open>XLSX.read\<close>,
  \<open>sheet_to_json\<close>) is a library: its outcome for a file (a grid of string, number and
  boolean cells, or a thrown message) is an input of the model. The markup of the page is
  not in the repository: the start page \<open>init_page\<close> (sections hidden, no data) is an
  assumption, and which DOM events call the handlers is taken from the handlers' names.
  \<open>console.log\<close> and \<open>console.error\<close> have no effect on the result and are left out.
  Rows are lists, so holes in the row array (\<open>!row\<close>) do not arise.
\<close>

section \<open>Properties across the extractor and the search\<close>

lemma extract_courseCode_nonempty: "e \<in> set (extractExamData g) \<Longrightarrow> courseCode e \<noteq> []"
  using Exam_Extractor.extract_entry_ok [of e g]
  by (auto simp: entry_ok_def)

lemma extract_searchable_courseCode:
  "e \<in> set (extractExamData g) \<Longrightarrow> searchable (courseCode e) = searchableCode e"
  using Exam_Extractor.extract_entry_ok [of e g]
  by (simp add: entry_ok_def searchable_filter)

text \<open>
  C12. Every entry the extractor emits is found by searching for its own course code as
  written: the query and the stored key are normalised by the same function.
\<close>

theorem extracted_entry_found:
  assumes "e \<in> set (extractExamData g)"
  shows "e \<in> set (fst (searchExams (extractExamData g) (courseCode e)))"
  using assms extract_courseCode_nonempty [OF assms] extract_searchable_courseCode [OF assms]
  by (simp add: searchExams_nonempty)

theorem extracted_entry_found_witness:
  "last (extractExamData spec_example_grid) \<in>
     set (fst (searchExams (extractExamData spec_example_grid) ''CS 102''))"
proof -
  have h: "last (extractExamData spec_example_grid) \<in> set (extractExamData spec_example_grid)"
    by code_simp
  have c: "courseCode (last (extractExamData spec_example_grid)) = ''CS 102''"
    by code_simp
  from extracted_entry_found [OF h] show ?thesis unfolding c .
qed

text \<open>
  C13. On extracted entries a non-empty query finds an entry exactly when the normalised
  query is a prefix of the normalised course code of the entry.
\<close>

theorem search_extracted_iff:
  assumes "rawQuery \<noteq> []" and "e \<in> set (extractExamData g)"
  shows "e \<in> set (fst (searchExams (extractExamData g) rawQuery)) \<longleftrightarrow>
         prefix (searchable rawQuery) (searchable (courseCode e))"
  using assms extract_searchable_courseCode [OF assms(2)]
  by (simp add: searchExams_nonempty)

theorem search_extracted_iff_witness:
  "hd (extractExamData spec_example_grid) \<notin>
     set (fst (searchExams (extractExamData spec_example_grid) ''cs 102''))"
proof -
  have h: "hd (extractExamData spec_example_grid) \<in> set (extractExamData spec_example_grid)"
    by code_simp
  have q: "''cs 102'' \<noteq> []" by simp
  have n: "\<not> prefix (searchable ''cs 102'') (searchable (courseCode (hd (extractExamData spec_example_grid))))"
    by code_simp
  from search_extracted_iff [OF q h] n show ?thesis by simp
qed

end
